theory Spec2Isabelle
  imports Complex_Main
begin

section \<open>Values, errors and the call log\<close>

text \<open>
  A float64 that a computation produces is either a number or the not-a-number
  sentinel \<open>np.nan\<close>. Arithmetic propagates the sentinel; rounding is not modelled.
  Coordinates, observed values and smoothing magnitudes supplied by the caller are
  finite floats and are compared as the reals they denote.
\<close>

datatype pyfloat = Val real | NaN

fun fadd :: "pyfloat \<Rightarrow> pyfloat \<Rightarrow> pyfloat" where
  "fadd (Val a) (Val b) = Val (a + b)"
| "fadd _ _ = NaN"

fun fmul :: "pyfloat \<Rightarrow> pyfloat \<Rightarrow> pyfloat" where
  "fmul (Val a) (Val b) = Val (a * b)"
| "fmul _ _ = NaN"

definition fsum :: "pyfloat list \<Rightarrow> pyfloat" where
  "fsum xs = fold (\<lambda>x acc. fadd acc x) xs (Val 0)"

text \<open>\<open>v.dot(w)\<close> for two vectors.\<close>

definition fdot :: "pyfloat list \<Rightarrow> pyfloat list \<Rightarrow> pyfloat" where
  "fdot v w = fsum (map2 fmul v w)"

text \<open>
  Every \<open>raise\<close> of the source is a \<open>ValueError\<close>; the constructors carry the
  names the specification gives to the four situations, and \<open>PyError\<close> stands for an
  exception raised by Python or NumPy itself (its message is the argument).
  \<^item> \<open>ShapeMismatchError\<close>: raised by \<open>assert_shape\<close>;
  \<^item> \<open>InsufficientDataError\<close>: "The polynomial order is too high for the number of
    observations" and "... for the number of nearest neighbors";
  \<^item> \<open>ConfigurationError\<close>: "SparseRBF instances are not supported";
  \<^item> \<open>SingularSystemError\<close>: what a linear solver signals.
\<close>

datatype error =
    ShapeMismatchError
  | InsufficientDataError
  | ConfigurationError
  | SingularSystemError
  | PyError string

text \<open>Calls into the collaborating modules are logged, in the order they are made.\<close>

datatype event =
    Call_get_rbf
  | Call_phi
  | Call_powers
  | Call_mvmonos
  | Call_PartitionedSolver_solve
  | Call_KDTree
  | Call_tree_query
  | Call_linalg_solve
  | Call_Delaunay

type_synonym 'a run = "event list \<times> (error + 'a)"

definition ret :: "'a \<Rightarrow> 'a run" where
  "ret v = ([], Inr v)"

definition raise :: "error \<Rightarrow> 'a run" where
  "raise e = ([], Inl e)"

definition logged :: "event \<Rightarrow> 'a \<Rightarrow> 'a run" where
  "logged ev v = ([ev], Inr v)"

definition lift :: "event \<Rightarrow> error + 'a \<Rightarrow> 'a run" where
  "lift ev r = ([ev], r)"

definition and_then :: "'a run \<Rightarrow> ('a \<Rightarrow> 'b run) \<Rightarrow> 'b run" where
  "and_then m f =
     (case m of
        (l, Inl e) \<Rightarrow> (l, Inl e)
      | (l, Inr v) \<Rightarrow> (case f v of (l', r) \<Rightarrow> (l @ l', r)))"

definition events :: "'a run \<Rightarrow> event list" where
  "events m = fst m"

definition outcome :: "'a run \<Rightarrow> error + 'a" where
  "outcome m = snd m"

section \<open>Arrays\<close>

text \<open>
  An \<open>ndarray\<close> after \<open>np.asarray(..., dtype=float)\<close>: its shape and its elements in
  row-major order. \<open>wf_array\<close> is NumPy's invariant that the element count is the
  product of the shape.
\<close>

record 'a ndarray =
  shape :: "nat list"
  flat :: "'a list"

definition wf_array :: "'a ndarray \<Rightarrow> bool" where
  "wf_array a = (length (flat a) = prod_list (shape a))"

text \<open>
  Modelled from the spec: \<open>rbf.utils.assert_shape\<close> is not among the sources. A
  \<open>None\<close> entry accepts any extent; the number of dimensions and every other extent
  must agree, or the call raises at the boundary.
\<close>

definition shape_ok :: "nat list \<Rightarrow> nat option list \<Rightarrow> bool" where
  "shape_ok shp spec =
     list_all2 (\<lambda>n s. case s of None \<Rightarrow> True | Some m \<Rightarrow> n = m) shp spec"

definition assert_shape :: "'a ndarray \<Rightarrow> nat option list \<Rightarrow> unit run" where
  "assert_shape a spec = (if shape_ok (shape a) spec then ret () else raise ShapeMismatchError)"

text \<open>The rows of a two-dimensional array, and \<open>a.shape[0]\<close>, \<open>a.shape[1]\<close>.\<close>

definition nrows :: "'a ndarray \<Rightarrow> nat" where
  "nrows a = (case shape a of [] \<Rightarrow> 0 | n # _ \<Rightarrow> n)"

definition ncols :: "'a ndarray \<Rightarrow> nat" where
  "ncols a = (case shape a of _ # m # _ \<Rightarrow> m | _ \<Rightarrow> 0)"

definition rows :: "'a ndarray \<Rightarrow> 'a list list" where
  "rows a = map (\<lambda>i. take (ncols a) (drop (i * ncols a) (flat a))) [0..<nrows a]"

text \<open>
  Python's \<open>range(start, stop, step)\<close> for a non-zero step (a zero step raises
  before any element is produced, see \<open>checked_range\<close>).
\<close>

function py_range :: "int \<Rightarrow> int \<Rightarrow> int \<Rightarrow> int list" where
  "py_range start stop step =
     (if 0 < step \<and> start < stop then start # py_range (start + step) stop step
      else if step < 0 \<and> stop < start then start # py_range (start + step) stop step
      else [])"
  by pat_completeness auto
termination
  by (relation "measure (\<lambda>(start, stop, step). nat (if 0 < step then stop - start else start - stop))")
     auto

definition checked_range :: "int \<Rightarrow> int \<Rightarrow> int \<Rightarrow> int list run" where
  "checked_range start stop step =
     (if step = 0 then raise (PyError ''range() arg 3 must not be zero'')
      else ret (py_range start stop step))"

text \<open>
  The bounds of a slice \<open>[start:stop]\<close> on an axis of extent \<open>n\<close>: a negative
  index counts from the end, and both are clipped to the axis.
\<close>

definition clip_index :: "nat \<Rightarrow> int \<Rightarrow> nat" where
  "clip_index n i = (if i < 0 then nat (max 0 (int n + i)) else min (nat i) n)"

definition slice_list :: "'a list \<Rightarrow> int \<Rightarrow> int \<Rightarrow> 'a list" where
  "slice_list xs start stop =
     (let a = clip_index (length xs) start; b = clip_index (length xs) stop
      in take (b - a) (drop a xs))"

text \<open>\<open>x[start:stop]\<close> on the first axis of a two-dimensional array.\<close>

definition slice_rows :: "'a ndarray \<Rightarrow> int \<Rightarrow> int \<Rightarrow> 'a ndarray" where
  "slice_rows x start stop =
     (let a = clip_index (nrows x) start; b = clip_index (nrows x) stop
      in \<lparr>shape = [b - a, ncols x],
          flat = take ((b - a) * ncols x) (drop (a * ncols x) (flat x))\<rparr>)"

text \<open>
  \<open>out[start:stop] = v\<close> on a vector: \<open>v\<close> must have the extent of the slice, or
  extent one (NumPy then broadcasts it); anything else raises.
\<close>

definition assign_slice :: "'a list \<Rightarrow> int \<Rightarrow> int \<Rightarrow> 'a list \<Rightarrow> 'a list run" where
  "assign_slice out start stop v =
     (let a = clip_index (length out) start; b = clip_index (length out) stop; n = b - a
      in if length v = n then ret (take a out @ v @ drop (a + n) out)
         else if length v = 1 then ret (take a out @ replicate n (hd v) @ drop (a + n) out)
         else raise (PyError ''could not broadcast input array''))"

text \<open>\<open>np.min\<close> and \<open>np.max\<close> over all elements; both raise on an empty array.\<close>

definition np_min :: "real ndarray \<Rightarrow> real run" where
  "np_min a =
     (case flat a of
        [] \<Rightarrow> raise (PyError ''zero-size array to reduction operation minimum'')
      | v # vs \<Rightarrow> ret (fold min vs v))"

definition np_max :: "real ndarray \<Rightarrow> real run" where
  "np_max a =
     (case flat a of
        [] \<Rightarrow> raise (PyError ''zero-size array to reduction operation maximum'')
      | v # vs \<Rightarrow> ret (fold max vs v))"

text \<open>\<open>p[:, 0]\<close>: the first column; there is none when the array has no columns.\<close>

definition column0 :: "'a ndarray \<Rightarrow> 'a list run" where
  "column0 p =
     (if ncols p = 0 then raise (PyError ''index 0 is out of bounds for axis 1 with size 0'')
      else ret (map (\<lambda>r. r ! 0) (rows p)))"

section \<open>The collaborating modules\<close>

text \<open>
  The kernel, the polynomial basis, the block solver and the spatial index live in
  modules that are not among the sources (\<open>rbf.basis\<close>, \<open>rbf.poly\<close>,
  \<open>rbf.linalg\<close>, \<open>rbf.utils\<close>), and the triangulation and the dense solver belong
  to SciPy and NumPy. They are parameters of the development.

  Modelled from the spec: a kernel evaluates pairs of points, so the matrix
  \<open>phi(x, c, eps, diff)\<close> has one row per point of \<open>x\<close> and one column per centre of
  \<open>c\<close>; \<open>rbf_eval\<close> is the entry for a point and the \<open>j\<close>-th centre. The flag
  \<open>is_sparse\<close> is \<open>isinstance(phi, SparseRBF)\<close>.
\<close>

datatype shape_param = Eps_scalar real | Eps_array "real list"

type_synonym diff_arg = "int list option"

record rbf =
  is_sparse :: bool
  rbf_eval :: "shape_param \<Rightarrow> diff_arg \<Rightarrow> real list \<Rightarrow> nat \<Rightarrow> real list \<Rightarrow> pyfloat"

datatype phi_arg = Phi_name string | Phi_instance rbf

text \<open>
  Modelled from the spec:
  \<^item> \<open>get_rbf\<close> resolves a name or an instance to a kernel, or raises;
  \<^item> \<open>powers order dim\<close> is the exponent set, one exponent tuple per monomial;
  \<^item> \<open>monomial diff p e\<close> is the entry of \<open>mvmonos\<close> for the point \<open>p\<close> and the
    exponent tuple \<open>e\<close>;
  \<^item> \<open>partitioned_solve K P d z\<close> is \<open>PartitionedSolver(K, P).solve(d, z)\<close>: the
    two coefficient vectors, or an error;
  \<^item> \<open>kdtree\<close> builds the spatial index, and \<open>tree_query t p k j\<close> is the index of
    the \<open>j\<close>-th nearest observation to the target \<open>p\<close> among its \<open>k\<close> neighbours;
  \<^item> \<open>linalg_solve A b\<close> is \<open>np.linalg.solve\<close> for one system of a batch;
  \<^item> \<open>delaunay pts\<close> is \<open>scipy.spatial.Delaunay\<close>: it raises, or returns the
    triangulation, represented by its \<open>find_simplex\<close>.
\<close>

record 't collab =
  get_rbf :: "phi_arg \<Rightarrow> error + rbf"
  powers :: "int \<Rightarrow> nat \<Rightarrow> nat list list"
  monomial :: "diff_arg \<Rightarrow> real list \<Rightarrow> nat list \<Rightarrow> pyfloat"
  partitioned_solve ::
    "pyfloat list list \<Rightarrow> pyfloat list list \<Rightarrow> real list \<Rightarrow> pyfloat list
      \<Rightarrow> error + (pyfloat list \<times> pyfloat list)"
  kdtree :: "real ndarray \<Rightarrow> 't"
  tree_query :: "'t \<Rightarrow> real list \<Rightarrow> int \<Rightarrow> nat \<Rightarrow> nat"
  linalg_solve :: "pyfloat list list \<Rightarrow> pyfloat list \<Rightarrow> error + pyfloat list"
  delaunay :: "real list list \<Rightarrow> error + (real list \<Rightarrow> int)"

section \<open>The convex-hull test\<close>

text \<open>\<open>_in_hull(p, hull)\<close>; the second argument is written \<open>hull_pts\<close>.\<close>

definition in_hull :: "('t, 'z) collab_scheme \<Rightarrow> real ndarray \<Rightarrow> real ndarray \<Rightarrow> bool list run" where
  "in_hull C p hull_pts =
     (let dim = ncols p in
      if nrows hull_pts \<le> dim then ret (replicate (nrows p) False)
      else if 2 \<le> dim then
        and_then (lift Call_Delaunay (delaunay C (rows hull_pts)))
          (\<lambda>find_simplex. ret (map (\<lambda>q. 0 \<le> find_simplex q) (rows p)))
      else
        and_then (np_min hull_pts) (\<lambda>mn.
        and_then (np_max hull_pts) (\<lambda>mx.
        and_then (column0 p) (\<lambda>c.
        ret (map (\<lambda>v. mn \<le> v \<and> v \<le> mx) c)))))"

section \<open>Matrices assembled from the collaborators\<close>

text \<open>\<open>phi(x, c, eps=eps, diff=diff)\<close>: one row per point of \<open>x\<close>.\<close>

definition kernel_row :: "rbf \<Rightarrow> shape_param \<Rightarrow> diff_arg \<Rightarrow> real list list \<Rightarrow> real list \<Rightarrow> pyfloat list" where
  "kernel_row ph eps diff cs p = map (\<lambda>(j, c). rbf_eval ph eps diff p j c) (enumerate 0 cs)"

definition kernel_matrix :: "rbf \<Rightarrow> shape_param \<Rightarrow> diff_arg \<Rightarrow> real list list \<Rightarrow> real list list \<Rightarrow> pyfloat list list" where
  "kernel_matrix ph eps diff xs cs = map (kernel_row ph eps diff cs) xs"

text \<open>\<open>mvmonos(x, pwr, diff=diff)\<close>: one row per point, one column per monomial.\<close>

definition mvmonos :: "('t, 'z) collab_scheme \<Rightarrow> diff_arg \<Rightarrow> real list list \<Rightarrow> nat list list \<Rightarrow> pyfloat list list" where
  "mvmonos C diff xs pwr = map (\<lambda>p. map (monomial C diff p) pwr) xs"

text \<open>Adding a vector to the diagonal of a square matrix.\<close>

definition add_diag :: "pyfloat list list \<Rightarrow> pyfloat list \<Rightarrow> pyfloat list list" where
  "add_diag K dg = map (\<lambda>i. (K ! i)[i := fadd (K ! i ! i) (dg ! i)]) [0..<length K]"

definition squares :: "real list \<Rightarrow> pyfloat list" where
  "squares sg = map (\<lambda>s. Val (s * s)) sg"

section \<open>The global interpolant\<close>

record RBFInterpolant =
  gl_y :: "real ndarray"
  gl_phi :: rbf
  gl_order :: int
  gl_eps :: shape_param
  gl_phi_coeff :: "pyfloat list"
  gl_poly_coeff :: "pyfloat list"
  gl_pwr :: "nat list list"
  gl_extrapolate :: bool

datatype sigma_arg = Sigma_scalar real | Sigma_array "real ndarray"

text \<open>The smoothing argument, broadcast or validated against \<open>y.shape[0]\<close>.\<close>

definition resolve_sigma :: "sigma_arg \<Rightarrow> nat \<Rightarrow> real list run" where
  "resolve_sigma sg n =
     (case sg of
        Sigma_scalar v \<Rightarrow> ret (replicate n v)
      | Sigma_array a \<Rightarrow> and_then (assert_shape a [Some n]) (\<lambda>_. ret (flat a)))"

text \<open>\<open>RBFInterpolant.__init__\<close>.\<close>

definition RBFInterpolant_init ::
  "('t, 'z) collab_scheme \<Rightarrow> real ndarray \<Rightarrow> real ndarray \<Rightarrow> sigma_arg \<Rightarrow> shape_param \<Rightarrow> phi_arg
     \<Rightarrow> int \<Rightarrow> bool \<Rightarrow> RBFInterpolant run" where
  "RBFInterpolant_init C y d sg eps ph ord extrap =
     and_then (assert_shape y [None, None]) (\<lambda>_.
     and_then (assert_shape d [Some (nrows y)]) (\<lambda>_.
     and_then (resolve_sigma sg (nrows y)) (\<lambda>sigma.
     and_then (lift Call_get_rbf (get_rbf C ph)) (\<lambda>phi.
     and_then (logged Call_phi (kernel_matrix phi eps None (rows y) (rows y))) (\<lambda>K0.
     let K = add_diag K0 (squares sigma) in
     and_then (logged Call_powers (powers C ord (ncols y))) (\<lambda>pwr.
     if nrows y < length pwr then raise InsufficientDataError
     else
       and_then (logged Call_mvmonos (mvmonos C None (rows y) pwr)) (\<lambda>P.
       let z = replicate (length pwr) (Val 0) in
       and_then (lift Call_PartitionedSolver_solve (partitioned_solve C K P (flat d) z))
         (\<lambda>(phi_coeff, poly_coeff).
       ret \<lparr>gl_y = y, gl_phi = phi, gl_order = ord, gl_eps = eps,
            gl_phi_coeff = phi_coeff, gl_poly_coeff = poly_coeff,
            gl_pwr = pwr, gl_extrapolate = extrap\<rparr>))))))))"

text \<open>\<open>out[~inside] = np.nan\<close>.\<close>

definition mask_outside :: "pyfloat list \<Rightarrow> bool list \<Rightarrow> pyfloat list" where
  "mask_outside out inside = map2 (\<lambda>v b. if b then v else NaN) out inside"

text \<open>
  The body of \<open>RBFInterpolant.__call__\<close> after the chunking block: one batch of
  targets.
\<close>

definition RBFInterpolant_batch ::
  "('t, 'z) collab_scheme \<Rightarrow> RBFInterpolant \<Rightarrow> real ndarray \<Rightarrow> diff_arg \<Rightarrow> pyfloat list run" where
  "RBFInterpolant_batch C s x diff =
     and_then (logged Call_phi (kernel_matrix (gl_phi s) (gl_eps s) diff (rows x) (rows (gl_y s)))) (\<lambda>K.
     and_then (logged Call_mvmonos (mvmonos C diff (rows x) (gl_pwr s))) (\<lambda>P.
     let out = map2 fadd (map (\<lambda>r. fdot r (gl_phi_coeff s)) K)
                         (map (\<lambda>r. fdot r (gl_poly_coeff s)) P) in
     if \<not> gl_extrapolate s then
       and_then (in_hull C x (gl_y s)) (\<lambda>inside. ret (mask_outside out inside))
     else ret out))"

text \<open>
  The chunking loop shared by both classes: \<open>f\<close> is the recursive call
  \<open>self(x[start:stop], diff=diff, chunk_size=None)\<close>.
\<close>

fun chunk_loop ::
  "(real ndarray \<Rightarrow> pyfloat list run) \<Rightarrow> real ndarray \<Rightarrow> int \<Rightarrow> int list \<Rightarrow> pyfloat list
     \<Rightarrow> pyfloat list run" where
  "chunk_loop f x chunk_size [] out = ret out"
| "chunk_loop f x chunk_size (start # rest) out =
     (let stop = start + chunk_size in
      and_then (f (slice_rows x start stop)) (\<lambda>v.
      and_then (assign_slice out start stop v) (\<lambda>out'.
      chunk_loop f x chunk_size rest out')))"

definition chunked ::
  "(real ndarray \<Rightarrow> pyfloat list run) \<Rightarrow> real ndarray \<Rightarrow> int \<Rightarrow> pyfloat list run" where
  "chunked f x chunk_size =
     (let out = replicate (nrows x) (Val 0) in
      and_then (checked_range 0 (int (nrows x)) chunk_size) (\<lambda>starts.
      chunk_loop f x chunk_size starts out))"

text \<open>\<open>RBFInterpolant.__call__\<close>; \<open>None\<close> is \<open>chunk_size=None\<close>.\<close>

definition RBFInterpolant_call_None ::
  "('t, 'z) collab_scheme \<Rightarrow> RBFInterpolant \<Rightarrow> real ndarray \<Rightarrow> diff_arg \<Rightarrow> pyfloat list run" where
  "RBFInterpolant_call_None C s x diff =
     and_then (assert_shape x [None, Some (ncols (gl_y s))]) (\<lambda>_.
     RBFInterpolant_batch C s x diff)"

definition RBFInterpolant_call ::
  "('t, 'z) collab_scheme \<Rightarrow> RBFInterpolant \<Rightarrow> real ndarray \<Rightarrow> diff_arg \<Rightarrow> int option
     \<Rightarrow> pyfloat list run" where
  "RBFInterpolant_call C s x diff chunk_size =
     and_then (assert_shape x [None, Some (ncols (gl_y s))]) (\<lambda>_.
     case chunk_size of
       Some c \<Rightarrow> chunked (\<lambda>xc. RBFInterpolant_call_None C s xc diff) x c
     | None \<Rightarrow> RBFInterpolant_batch C s x diff)"

section \<open>The local (nearest-neighbour) interpolant\<close>

record 't NearestRBFInterpolant =
  nr_y :: "real ndarray"
  nr_d :: "real ndarray"
  nr_sigma :: "real list"
  nr_k :: int
  nr_eps :: shape_param
  nr_phi :: rbf
  nr_order :: int
  nr_tree :: 't

text \<open>\<open>NearestRBFInterpolant.__init__\<close>.\<close>

definition NearestRBFInterpolant_init ::
  "('t, 'z) collab_scheme \<Rightarrow> real ndarray \<Rightarrow> real ndarray \<Rightarrow> sigma_arg \<Rightarrow> int \<Rightarrow> shape_param
     \<Rightarrow> phi_arg \<Rightarrow> int \<Rightarrow> 't NearestRBFInterpolant run" where
  "NearestRBFInterpolant_init C y d sg k eps ph ord =
     and_then (assert_shape y [None, None]) (\<lambda>_.
     and_then (assert_shape d [Some (nrows y)]) (\<lambda>_.
     and_then (resolve_sigma sg (nrows y)) (\<lambda>sigma.
     and_then (lift Call_get_rbf (get_rbf C ph)) (\<lambda>phi.
     if is_sparse phi then raise ConfigurationError
     else
       and_then (logged Call_KDTree (kdtree C y)) (\<lambda>tree.
       ret \<lparr>nr_y = y, nr_d = d, nr_sigma = sigma, nr_k = k, nr_eps = eps,
            nr_phi = phi, nr_order = ord, nr_tree = tree\<rparr>)))))"

text \<open>
  \<open>a[nbr]\<close> for an integer index array with one row of indices per target: an
  index beyond the first axis raises.
\<close>

definition fancy_index :: "'a list \<Rightarrow> nat list list \<Rightarrow> 'a list list run" where
  "fancy_index a nbr =
     (if list_all (list_all (\<lambda>j. j < length a)) nbr then ret (map (map (\<lambda>j. a ! j)) nbr)
      else raise (PyError ''index is out of bounds for axis 0''))"

text \<open>
  \<open>np.linalg.solve\<close> on a batch: the systems are solved one by one, and the call
  raises when one of them does.
\<close>

fun solve_batch ::
  "(pyfloat list list \<Rightarrow> pyfloat list \<Rightarrow> error + pyfloat list) \<Rightarrow> pyfloat list list list
     \<Rightarrow> pyfloat list list \<Rightarrow> error + pyfloat list list" where
  "solve_batch f (A # As) (b # bs) =
     (case f A b of
        Inl e \<Rightarrow> Inl e
      | Inr c \<Rightarrow> (case solve_batch f As bs of Inl e \<Rightarrow> Inl e | Inr cs \<Rightarrow> Inr (c # cs)))"
| "solve_batch f _ _ = Inr []"

text \<open>The saddle-point matrix of one neighbourhood, from its blocks.\<close>

definition saddle_matrix :: "pyfloat list list \<Rightarrow> pyfloat list list \<Rightarrow> nat \<Rightarrow> pyfloat list list" where
  "saddle_matrix K P m =
     map2 (@) K P @ map (\<lambda>r. r @ replicate m (Val 0)) (transpose P)"

text \<open>
  The body of \<open>NearestRBFInterpolant.__call__\<close> after the chunking block: one batch
  of targets. Past the first check \<open>self.k\<close> is not negative. The source writes
  \<open>self.y[nbr]\<close> at each use; the value is the same each time, and only the first
  evaluation can raise.
\<close>

definition NearestRBFInterpolant_batch ::
  "('t, 'z) collab_scheme \<Rightarrow> 't NearestRBFInterpolant \<Rightarrow> real ndarray \<Rightarrow> diff_arg \<Rightarrow> pyfloat list run" where
  "NearestRBFInterpolant_batch C s x diff =
     and_then (logged Call_powers (powers C (nr_order s) (ncols (nr_y s)))) (\<lambda>pwr.
     if nr_k s < int (length pwr) then raise InsufficientDataError
     else
       let k = nat (nr_k s); m = length pwr in
       and_then (logged Call_tree_query
                   (map (\<lambda>p. map (tree_query C (nr_tree s) p (nr_k s)) [0..<k]) (rows x))) (\<lambda>nbr.
       and_then (fancy_index (rows (nr_y s)) nbr) (\<lambda>ynbr.
       and_then (logged Call_phi
                   (map (\<lambda>c. kernel_matrix (nr_phi s) (nr_eps s) None c c) ynbr)) (\<lambda>K0.
       and_then (fancy_index (nr_sigma s) nbr) (\<lambda>snbr.
       let K = map2 add_diag K0 (map squares snbr) in
       and_then (logged Call_mvmonos (map (\<lambda>c. mvmonos C None c pwr) ynbr)) (\<lambda>P.
       let LHS = map2 (\<lambda>Ki Pi. saddle_matrix Ki Pi m) K P in
       and_then (fancy_index (flat (nr_d s)) nbr) (\<lambda>dnbr.
       let rhs = map (\<lambda>di. map Val di @ replicate m (Val 0)) dnbr in
       and_then (lift Call_linalg_solve (solve_batch (linalg_solve C) LHS rhs)) (\<lambda>coeff.
       let phi_coeff = map (take k) coeff;
           poly_coeff = map (drop k) coeff in
       and_then (logged Call_phi
                   (map2 (kernel_row (nr_phi s) (nr_eps s) diff) ynbr (rows x))) (\<lambda>Kx.
       and_then (logged Call_mvmonos (mvmonos C diff (rows x) pwr)) (\<lambda>Px.
       ret (map2 fadd (map2 fdot Kx phi_coeff) (map2 fdot Px poly_coeff))))))))))))"

text \<open>\<open>NearestRBFInterpolant.__call__\<close>; \<open>None\<close> is \<open>chunk_size=None\<close>.\<close>

definition NearestRBFInterpolant_call_None ::
  "('t, 'z) collab_scheme \<Rightarrow> 't NearestRBFInterpolant \<Rightarrow> real ndarray \<Rightarrow> diff_arg \<Rightarrow> pyfloat list run" where
  "NearestRBFInterpolant_call_None C s x diff =
     and_then (assert_shape x [None, Some (ncols (nr_y s))]) (\<lambda>_.
     NearestRBFInterpolant_batch C s x diff)"

definition NearestRBFInterpolant_call ::
  "('t, 'z) collab_scheme \<Rightarrow> 't NearestRBFInterpolant \<Rightarrow> real ndarray \<Rightarrow> diff_arg \<Rightarrow> int option
     \<Rightarrow> pyfloat list run" where
  "NearestRBFInterpolant_call C s x diff chunk_size =
     and_then (assert_shape x [None, Some (ncols (nr_y s))]) (\<lambda>_.
     case chunk_size of
       Some c \<Rightarrow> chunked (\<lambda>xc. NearestRBFInterpolant_call_None C s xc diff) x c
     | None \<Rightarrow> NearestRBFInterpolant_batch C s x diff)"

section \<open>A concrete set of collaborators\<close>

text \<open>
  The theorems below hold for every choice of collaborators. To run the model on
  concrete inputs, here is one choice.

  Modelled from the spec: the exponent set is "all non-negative integer D-tuples with
  total degree at most the order", and the order \<open>-1\<close> gives none.
\<close>

fun tuples_of_degree :: "nat \<Rightarrow> nat \<Rightarrow> nat list list" where
  "tuples_of_degree 0 t = (if t = 0 then [[]] else [])"
| "tuples_of_degree (Suc n) t =
     concat (map (\<lambda>i. map ((#) i) (tuples_of_degree n (t - i))) [0..<Suc t])"

definition spec_powers :: "int \<Rightarrow> nat \<Rightarrow> nat list list" where
  "spec_powers ord ndim =
     (if ord < 0 then [] else concat (map (tuples_of_degree ndim) [0..<Suc (nat ord)]))"

text \<open>A kernel of the squared distance, and the same kernel flagged as sparse.\<close>

definition sqdist :: "real list \<Rightarrow> real list \<Rightarrow> real" where
  "sqdist p c = sum_list (map2 (\<lambda>a b. (a - b) * (a - b)) p c)"

definition sample_rbf :: rbf where
  "sample_rbf = \<lparr>is_sparse = False, rbf_eval = (\<lambda>eps diff p j c. Val (sqdist p c))\<rparr>"

definition sample_sparse_rbf :: rbf where
  "sample_sparse_rbf = \<lparr>is_sparse = True, rbf_eval = (\<lambda>eps diff p j c. Val (sqdist p c))\<rparr>"

definition sample_get_rbf :: "phi_arg \<Rightarrow> error + rbf" where
  "sample_get_rbf a =
     (case a of
        Phi_instance r \<Rightarrow> Inr r
      | Phi_name n \<Rightarrow>
          (if n = ''sqdist'' then Inr sample_rbf
           else if n = ''sparse'' then Inr sample_sparse_rbf
           else Inl (PyError ''Cannot interpret as an RBF'')))"

definition sample_monomial :: "diff_arg \<Rightarrow> real list \<Rightarrow> nat list \<Rightarrow> pyfloat" where
  "sample_monomial diff p e = Val (prod_list (map2 (\<lambda>a n. a ^ n) p e))"

text \<open>
  The index of the \<open>j\<close>-th nearest observation: indices sorted by distance, ties by
  index. The tree is the list of observation points.
\<close>

definition sample_query :: "real list list \<Rightarrow> real list \<Rightarrow> int \<Rightarrow> nat \<Rightarrow> nat" where
  "sample_query t p k j =
     (let ranked = sort_key (\<lambda>i. sqdist p (t ! i)) [0..<length t]
      in if j < length ranked then ranked ! j else length t)"

text \<open>
  The triangulation of this choice handles three points of the plane that are not
  collinear, which span one triangle; every other input raises. A point is in the
  triangle when it is on the inner side of, or on, each edge.
\<close>

definition cross2 :: "real list \<Rightarrow> real list \<Rightarrow> real list \<Rightarrow> real" where
  "cross2 a b q = (b ! 0 - a ! 0) * (q ! 1 - a ! 1) - (b ! 1 - a ! 1) * (q ! 0 - a ! 0)"

definition in_triangle :: "real list \<Rightarrow> real list \<Rightarrow> real list \<Rightarrow> real list \<Rightarrow> bool" where
  "in_triangle a b c q =
     (let s = cross2 a b c in
      0 \<le> s * cross2 a b q \<and> 0 \<le> s * cross2 b c q \<and> 0 \<le> s * cross2 c a q)"

definition sample_delaunay :: "real list list \<Rightarrow> error + (real list \<Rightarrow> int)" where
  "sample_delaunay pts =
     (case pts of
        [a, b, c] \<Rightarrow>
          if length a = 2 \<and> length b = 2 \<and> length c = 2 \<and> cross2 a b c \<noteq> 0
          then Inr (\<lambda>q. if in_triangle a b c q then 0 else - 1)
          else Inl (PyError ''QhullError'')
      | _ \<Rightarrow> Inl (PyError ''QhullError''))"

text \<open>
  The two solvers of this choice accept a system only when the solution can be read
  off: they return the right-hand side.
\<close>

definition sample_collab :: "(real list list) collab" where
  "sample_collab =
     \<lparr>get_rbf = sample_get_rbf,
      powers = spec_powers,
      monomial = sample_monomial,
      partitioned_solve = (\<lambda>K P d z. Inr (map Val d, z)),
      kdtree = rows,
      tree_query = sample_query,
      linalg_solve = (\<lambda>A b. Inr b),
      delaunay = sample_delaunay\<rparr>"


text \<open>
  Sample data: the observations 0, 1, 2 on a line with the values 1, 2, 3; a global
  interpolant over them that does not extrapolate; a local interpolant whose single
  neighbour cannot carry the two monomials of order 1; and a local interpolant without
  polynomial terms, with unit smoothing, whose one-by-one systems have the matrix (1).
\<close>

definition sample_y :: "real ndarray" where
  "sample_y = \<lparr>shape = [3, 1], flat = [0, 1, 2]\<rparr>"

definition sample_d :: "real ndarray" where
  "sample_d = \<lparr>shape = [3], flat = [1, 2, 3]\<rparr>"

definition sample_x :: "real ndarray" where
  "sample_x = \<lparr>shape = [3, 1], flat = [- 5, 7, 1]\<rparr>"

definition empty_x :: "real ndarray" where
  "empty_x = \<lparr>shape = [0, 1], flat = []\<rparr>"

definition sample_global :: RBFInterpolant where
  "sample_global =
     \<lparr>gl_y = sample_y, gl_phi = sample_rbf, gl_order = 1, gl_eps = Eps_scalar 1,
      gl_phi_coeff = [Val 1, Val 2, Val 3], gl_poly_coeff = [Val 0, Val 0],
      gl_pwr = [[0], [1]], gl_extrapolate = False\<rparr>"

definition sample_nearest_small :: "(real list list) NearestRBFInterpolant" where
  "sample_nearest_small =
     \<lparr>nr_y = sample_y, nr_d = sample_d, nr_sigma = [0, 0, 0], nr_k = 1,
      nr_eps = Eps_scalar 1, nr_phi = sample_rbf, nr_order = 1, nr_tree = rows sample_y\<rparr>"

definition sample_nearest :: "(real list list) NearestRBFInterpolant" where
  "sample_nearest =
     \<lparr>nr_y = sample_y, nr_d = sample_d, nr_sigma = [1, 1, 1], nr_k = 1,
      nr_eps = Eps_scalar 1, nr_phi = sample_rbf, nr_order = - 1, nr_tree = rows sample_y\<rparr>"



text \<open>
  More sample data: a single observation on a line, with the global interpolant of
  order 0 that the sample collaborators construct from it and a target at the
  observation; and three observations spanning a triangle of the plane, with a target
  inside and a target outside.
\<close>

definition single_y :: "real ndarray" where
  "single_y = \<lparr>shape = [1, 1], flat = [0]\<rparr>"

definition single_d :: "real ndarray" where
  "single_d = \<lparr>shape = [1], flat = [5]\<rparr>"

definition single_x :: "real ndarray" where
  "single_x = \<lparr>shape = [1, 1], flat = [0]\<rparr>"

definition single_global :: RBFInterpolant where
  "single_global =
     \<lparr>gl_y = single_y, gl_phi = sample_rbf, gl_order = 0, gl_eps = Eps_scalar 1,
      gl_phi_coeff = [Val 5], gl_poly_coeff = [Val 0],
      gl_pwr = [[0]], gl_extrapolate = False\<rparr>"

definition tri_y :: "real ndarray" where
  "tri_y = \<lparr>shape = [3, 2], flat = [0, 0, 1, 0, 0, 1]\<rparr>"

definition tri_x :: "real ndarray" where
  "tri_x = \<lparr>shape = [2, 2], flat = [1 / 4, 1 / 4, 1, 1]\<rparr>"

definition tri_global :: RBFInterpolant where
  "tri_global =
     \<lparr>gl_y = tri_y, gl_phi = sample_rbf, gl_order = 0, gl_eps = Eps_scalar 1,
      gl_phi_coeff = [Val 1, Val 2, Val 3], gl_poly_coeff = [Val 0],
      gl_pwr = [[0, 0]], gl_extrapolate = False\<rparr>"


section \<open>Evaluation on an explicit store\<close>

text \<open>
  To follow which objects an evaluation call writes to, the two \<open>__call__\<close> methods
  are modelled a second time over a store of objects. An address is an index into the
  store; \<open>alloc\<close> appends a new object, \<open>store_at\<close> overwrites an existing one in
  place. The interpolant is an object whose array-valued attributes are addresses;
  numbers, flags and the kernel are immutable values. Every array that exists before
  the call, and every array the source writes in place (\<open>out\<close>, and the kernel
  matrices \<open>K\<close> of the local interpolant), lives in the store; an array that is only
  read after it is created is kept as a value.

  Modelled from the spec: the collaborators are pure; they read their arguments and
  return new arrays.
\<close>

type_synonym addr = nat

record gl_obj =
  at_y :: addr
  the_phi :: rbf
  the_order :: int
  the_eps :: shape_param
  at_phi_coeff :: addr
  at_poly_coeff :: addr
  at_pwr :: addr
  the_extrapolate :: bool

record nr_obj =
  nat_y :: addr
  nat_d :: addr
  nat_sigma :: addr
  nthe_k :: int
  nthe_eps :: shape_param
  nthe_phi :: rbf
  nthe_order :: int
  nat_tree :: addr

datatype 't cell =
    Real_array "real ndarray"
  | Real_vector "real list"
  | Float_vector "pyfloat list"
  | Matrix_batch "pyfloat list list list"
  | Exponent_array "nat list list"
  | Tree 't
  | Global_object gl_obj
  | Nearest_object nr_obj

type_synonym 't heap = "'t cell list"

definition alloc :: "'t heap \<Rightarrow> 't cell \<Rightarrow> 't heap \<times> addr" where
  "alloc h c = (h @ [c], length h)"

definition store_at :: "'t heap \<Rightarrow> addr \<Rightarrow> 't cell \<Rightarrow> 't heap" where
  "store_at h a c = h[a := c]"

definition load :: "'t heap \<Rightarrow> addr \<Rightarrow> error + 't cell" where
  "load h a = (if a < length h then Inr (h ! a) else Inl (PyError ''no object at this address''))"

text \<open>
  A reference to a two-dimensional array: an address, and the slices \<open>[start:stop]\<close>
  taken of it so far. Slicing gives a view of the same object, not a copy.
\<close>

record view =
  base :: addr
  windows :: "(int \<times> int) list"

definition whole :: "addr \<Rightarrow> view" where
  "whole a = \<lparr>base = a, windows = []\<rparr>"

definition sub_view :: "view \<Rightarrow> int \<Rightarrow> int \<Rightarrow> view" where
  "sub_view v start stop = v\<lparr>windows := windows v @ [(start, stop)]\<rparr>"

definition load_reals :: "'t heap \<Rightarrow> view \<Rightarrow> error + real ndarray" where
  "load_reals h v =
     (case load h (base v) of
        Inr (Real_array a) \<Rightarrow> Inr (foldl (\<lambda>a (start, stop). slice_rows a start stop) a (windows v))
      | Inr _ \<Rightarrow> Inl (PyError ''not a float array'')
      | Inl e \<Rightarrow> Inl e)"

definition load_reals1 :: "'t heap \<Rightarrow> addr \<Rightarrow> error + real list" where
  "load_reals1 h a =
     (case load h a of
        Inr (Real_vector v) \<Rightarrow> Inr v
      | Inr (Real_array v) \<Rightarrow> Inr (flat v)
      | Inr _ \<Rightarrow> Inl (PyError ''not a float vector'')
      | Inl e \<Rightarrow> Inl e)"

definition load_floats :: "'t heap \<Rightarrow> addr \<Rightarrow> error + pyfloat list" where
  "load_floats h a =
     (case load h a of
        Inr (Float_vector v) \<Rightarrow> Inr v
      | Inr _ \<Rightarrow> Inl (PyError ''not a float vector'')
      | Inl e \<Rightarrow> Inl e)"

definition load_kernels :: "'t heap \<Rightarrow> addr \<Rightarrow> error + pyfloat list list list" where
  "load_kernels h a =
     (case load h a of
        Inr (Matrix_batch v) \<Rightarrow> Inr v
      | Inr _ \<Rightarrow> Inl (PyError ''not a batch of matrices'')
      | Inl e \<Rightarrow> Inl e)"

definition load_exponents :: "'t heap \<Rightarrow> addr \<Rightarrow> error + nat list list" where
  "load_exponents h a =
     (case load h a of
        Inr (Exponent_array v) \<Rightarrow> Inr v
      | Inr _ \<Rightarrow> Inl (PyError ''not an exponent array'')
      | Inl e \<Rightarrow> Inl e)"

definition load_tree :: "'t heap \<Rightarrow> addr \<Rightarrow> error + 't" where
  "load_tree h a =
     (case load h a of
        Inr (Tree t) \<Rightarrow> Inr t
      | Inr _ \<Rightarrow> Inl (PyError ''not a spatial index'')
      | Inl e \<Rightarrow> Inl e)"

definition load_global :: "'t heap \<Rightarrow> addr \<Rightarrow> error + gl_obj" where
  "load_global h a =
     (case load h a of
        Inr (Global_object s) \<Rightarrow> Inr s
      | Inr _ \<Rightarrow> Inl (PyError ''not an RBFInterpolant'')
      | Inl e \<Rightarrow> Inl e)"

definition load_nearest :: "'t heap \<Rightarrow> addr \<Rightarrow> error + nr_obj" where
  "load_nearest h a =
     (case load h a of
        Inr (Nearest_object s) \<Rightarrow> Inr s
      | Inr _ \<Rightarrow> Inl (PyError ''not a NearestRBFInterpolant'')
      | Inl e \<Rightarrow> Inl e)"

text \<open>A step that may raise: the store reached so far is kept.\<close>

definition on_ok :: "error + 'a \<Rightarrow> 't heap \<Rightarrow> ('a \<Rightarrow> 't heap \<times> (error + 'b)) \<Rightarrow> 't heap \<times> (error + 'b)" where
  "on_ok r h k = (case r of Inl e \<Rightarrow> (h, Inl e) | Inr v \<Rightarrow> k v)"

text \<open>
  The body of \<open>RBFInterpolant.__call__\<close> after the chunking block. The sum
  \<open>K.dot(...) + P.dot(...)\<close> is a new array \<open>out\<close>; the masking writes into it.
\<close>

definition st_RBFInterpolant_batch ::
  "('t, 'z) collab_scheme \<Rightarrow> 'u heap \<Rightarrow> addr \<Rightarrow> view \<Rightarrow> diff_arg \<Rightarrow> 'u heap \<times> (error + addr)" where
  "st_RBFInterpolant_batch C h self x diff =
     on_ok (load_global h self) h (\<lambda>s.
     on_ok (load_reals h x) h (\<lambda>xv.
     on_ok (load_reals h (whole (at_y s))) h (\<lambda>yv.
     on_ok (load_floats h (at_phi_coeff s)) h (\<lambda>phi_coeff.
     on_ok (load_exponents h (at_pwr s)) h (\<lambda>pwr.
     on_ok (load_floats h (at_poly_coeff s)) h (\<lambda>poly_coeff.
     let K = kernel_matrix (the_phi s) (the_eps s) diff (rows xv) (rows yv);
         P = mvmonos C diff (rows xv) pwr;
         (h1, out) = alloc h (Float_vector (map2 fadd (map (\<lambda>r. fdot r phi_coeff) K)
                                                (map (\<lambda>r. fdot r poly_coeff) P)))
     in if \<not> the_extrapolate s then
          on_ok (outcome (in_hull C xv yv)) h1 (\<lambda>inside.
          on_ok (load_floats h1 out) h1 (\<lambda>v.
          (store_at h1 out (Float_vector (mask_outside v inside)), Inr out)))
        else (h1, Inr out)))))))"

text \<open>
  The chunking loop: \<open>f\<close> is the recursive call on the view \<open>x[start:stop]\<close>; its
  result is copied into \<open>out[start:stop]\<close>, in place.
\<close>

fun st_chunk_loop ::
  "('u heap \<Rightarrow> view \<Rightarrow> 'u heap \<times> (error + addr)) \<Rightarrow> 'u heap \<Rightarrow> view \<Rightarrow> int \<Rightarrow> int list \<Rightarrow> addr
     \<Rightarrow> 'u heap \<times> (error + addr)" where
  "st_chunk_loop f h x chunk_size [] out = (h, Inr out)"
| "st_chunk_loop f h x chunk_size (start # rest) out =
     (let stop = start + chunk_size in
      case f h (sub_view x start stop) of
        (h1, Inl e) \<Rightarrow> (h1, Inl e)
      | (h1, Inr r) \<Rightarrow>
          on_ok (load_floats h1 r) h1 (\<lambda>v.
          on_ok (load_floats h1 out) h1 (\<lambda>old.
          on_ok (outcome (assign_slice old start stop v)) h1 (\<lambda>new.
          st_chunk_loop f (store_at h1 out (Float_vector new)) x chunk_size rest out))))"

definition st_chunked ::
  "('u heap \<Rightarrow> view \<Rightarrow> 'u heap \<times> (error + addr)) \<Rightarrow> 'u heap \<Rightarrow> view \<Rightarrow> nat \<Rightarrow> int
     \<Rightarrow> 'u heap \<times> (error + addr)" where
  "st_chunked f h x n chunk_size =
     (let (h1, out) = alloc h (Float_vector (replicate n (Val 0))) in
      on_ok (outcome (checked_range 0 (int n) chunk_size)) h1 (\<lambda>starts.
      st_chunk_loop f h1 x chunk_size starts out))"

text \<open>\<open>RBFInterpolant.__call__\<close> on the store.\<close>

definition st_RBFInterpolant_call_None ::
  "('t, 'z) collab_scheme \<Rightarrow> 'u heap \<Rightarrow> addr \<Rightarrow> view \<Rightarrow> diff_arg \<Rightarrow> 'u heap \<times> (error + addr)" where
  "st_RBFInterpolant_call_None C h self x diff =
     on_ok (load_global h self) h (\<lambda>s.
     on_ok (load_reals h x) h (\<lambda>xv.
     on_ok (load_reals h (whole (at_y s))) h (\<lambda>yv.
     on_ok (outcome (assert_shape xv [None, Some (ncols yv)])) h (\<lambda>_.
     st_RBFInterpolant_batch C h self x diff))))"

definition st_RBFInterpolant_call ::
  "('t, 'z) collab_scheme \<Rightarrow> 'u heap \<Rightarrow> addr \<Rightarrow> view \<Rightarrow> diff_arg \<Rightarrow> int option
     \<Rightarrow> 'u heap \<times> (error + addr)" where
  "st_RBFInterpolant_call C h self x diff chunk_size =
     on_ok (load_global h self) h (\<lambda>s.
     on_ok (load_reals h x) h (\<lambda>xv.
     on_ok (load_reals h (whole (at_y s))) h (\<lambda>yv.
     on_ok (outcome (assert_shape xv [None, Some (ncols yv)])) h (\<lambda>_.
     case chunk_size of
       Some c \<Rightarrow> st_chunked (\<lambda>h' xc. st_RBFInterpolant_call_None C h' self xc diff) h x (nrows xv) c
     | None \<Rightarrow> st_RBFInterpolant_batch C h self x diff))))"

text \<open>
  The body of \<open>NearestRBFInterpolant.__call__\<close> after the chunking block. The kernel
  matrices \<open>K\<close> returned by \<open>self.phi\<close> are a new array; the smoothing term is added to
  their diagonals in place. The indexing \<open>self.y[nbr]\<close>, \<open>self.sigma[nbr]\<close>,
  \<open>self.d[nbr]\<close> copies.
\<close>

definition st_NearestRBFInterpolant_batch ::
  "('t, 'z) collab_scheme \<Rightarrow> 't heap \<Rightarrow> addr \<Rightarrow> view \<Rightarrow> diff_arg \<Rightarrow> 't heap \<times> (error + addr)" where
  "st_NearestRBFInterpolant_batch C h self x diff =
     on_ok (load_nearest h self) h (\<lambda>s.
     on_ok (load_reals h (whole (nat_y s))) h (\<lambda>yv.
     (let pwr = powers C (nthe_order s) (ncols yv) in
     (if nthe_k s < int (length pwr) then (h, Inl InsufficientDataError)
      else
     (let k = nat (nthe_k s); m = length pwr in
     on_ok (load_tree h (nat_tree s)) h (\<lambda>tree.
     on_ok (load_reals h x) h (\<lambda>xv.
     (let nbr = map (\<lambda>p. map (tree_query C tree p (nthe_k s)) [0..<k]) (rows xv) in
     on_ok (outcome (fancy_index (rows yv) nbr)) h (\<lambda>ynbr.
     (case alloc h (Matrix_batch (map (\<lambda>c. kernel_matrix (nthe_phi s) (nthe_eps s) None c c) ynbr)) of
        (h1, K) \<Rightarrow>
     on_ok (load_reals1 h1 (nat_sigma s)) h1 (\<lambda>sigma.
     on_ok (outcome (fancy_index sigma nbr)) h1 (\<lambda>snbr.
     on_ok (load_kernels h1 K) h1 (\<lambda>K0.
     (let h2 = store_at h1 K (Matrix_batch (map2 add_diag K0 (map squares snbr))) in
     on_ok (load_kernels h2 K) h2 (\<lambda>Kv.
     (let P = map (\<lambda>c. mvmonos C None c pwr) ynbr;
          LHS = map2 (\<lambda>Ki Pi. saddle_matrix Ki Pi m) Kv P in
     on_ok (load_reals1 h2 (nat_d s)) h2 (\<lambda>d.
     on_ok (outcome (fancy_index d nbr)) h2 (\<lambda>dnbr.
     (let rhs = map (\<lambda>di. map Val di @ replicate m (Val 0)) dnbr in
     on_ok (solve_batch (linalg_solve C) LHS rhs) h2 (\<lambda>coeff.
     (let phi_coeff = map (take k) coeff;
          poly_coeff = map (drop k) coeff;
          Kx = map2 (kernel_row (nthe_phi s) (nthe_eps s) diff) ynbr (rows xv);
          Px = mvmonos C diff (rows xv) pwr in
     (case alloc h2 (Float_vector (map2 fadd (map2 fdot Kx phi_coeff) (map2 fdot Px poly_coeff))) of
        (h3, out) \<Rightarrow>
     (h3, Inr out)))))))))))))))))))))))"

text \<open>\<open>NearestRBFInterpolant.__call__\<close> on the store.\<close>

definition st_NearestRBFInterpolant_call_None ::
  "('t, 'z) collab_scheme \<Rightarrow> 't heap \<Rightarrow> addr \<Rightarrow> view \<Rightarrow> diff_arg \<Rightarrow> 't heap \<times> (error + addr)" where
  "st_NearestRBFInterpolant_call_None C h self x diff =
     on_ok (load_nearest h self) h (\<lambda>s.
     on_ok (load_reals h x) h (\<lambda>xv.
     on_ok (load_reals h (whole (nat_y s))) h (\<lambda>yv.
     on_ok (outcome (assert_shape xv [None, Some (ncols yv)])) h (\<lambda>_.
     st_NearestRBFInterpolant_batch C h self x diff))))"

definition st_NearestRBFInterpolant_call ::
  "('t, 'z) collab_scheme \<Rightarrow> 't heap \<Rightarrow> addr \<Rightarrow> view \<Rightarrow> diff_arg \<Rightarrow> int option
     \<Rightarrow> 't heap \<times> (error + addr)" where
  "st_NearestRBFInterpolant_call C h self x diff chunk_size =
     on_ok (load_nearest h self) h (\<lambda>s.
     on_ok (load_reals h x) h (\<lambda>xv.
     on_ok (load_reals h (whole (nat_y s))) h (\<lambda>yv.
     on_ok (outcome (assert_shape xv [None, Some (ncols yv)])) h (\<lambda>_.
     case chunk_size of
       Some c \<Rightarrow>
         st_chunked (\<lambda>h' xc. st_NearestRBFInterpolant_call_None C h' self xc diff) h x (nrows xv) c
     | None \<Rightarrow> st_NearestRBFInterpolant_batch C h self x diff))))"

text \<open>
  Sample stores. The first holds the sample global interpolant at address 4, its arrays
  at the addresses 0 to 3 and the sample targets at address 5. The second holds the
  sample local interpolant at address 4, its arrays and its spatial index at the
  addresses 0 to 3 and the targets at address 5.
\<close>

definition sample_global_store :: "(real list list) heap" where
  "sample_global_store =
     [Real_array sample_y, Float_vector [Val 1, Val 2, Val 3], Float_vector [Val 0, Val 0], Exponent_array [[0], [1]],
      Global_object \<lparr>at_y = 0, the_phi = sample_rbf, the_order = 1, the_eps = Eps_scalar 1,
                     at_phi_coeff = 1, at_poly_coeff = 2, at_pwr = 3, the_extrapolate = False\<rparr>,
      Real_array sample_x]"

definition sample_nearest_store :: "(real list list) heap" where
  "sample_nearest_store =
     [Real_array sample_y, Real_array sample_d, Real_vector [1, 1, 1], Tree (rows sample_y),
      Nearest_object \<lparr>nat_y = 0, nat_d = 1, nat_sigma = 2, nthe_k = 1, nthe_eps = Eps_scalar 1,
                      nthe_phi = sample_rbf, nthe_order = - 1, nat_tree = 3\<rparr>,
      Real_array sample_x]"


section \<open>Batches that work target by target\<close>

text \<open>
  A batch body \<open>f\<close> works target by target on arrays with \<open>D\<close> columns when there
  are a condition \<open>good\<close> on the interpolant alone, a condition \<open>ok\<close> on one target
  and a value \<open>g\<close> for one target such that \<open>f\<close> returns the values of its targets
  when \<open>good\<close> holds and every target is \<open>ok\<close>, and raises otherwise.
\<close>

definition rowwise ::
  "(real ndarray \<Rightarrow> pyfloat list run) \<Rightarrow> nat \<Rightarrow> bool \<Rightarrow> (real list \<Rightarrow> bool) \<Rightarrow> (real list \<Rightarrow> pyfloat)
     \<Rightarrow> bool" where
  "rowwise f D good ok g =
     (\<forall>xc n. shape xc = [n, D] \<longrightarrow>
        (if good \<and> list_all ok (rows xc) then outcome (f xc) = Inr (map g (rows xc))
         else \<exists>e. outcome (f xc) = Inl e))"

text \<open>
  For the convex-hull test on targets with \<open>D\<close> columns: whether the test returns at
  all (it depends on the observations alone), and its verdict on one target.
\<close>

definition hull_ready :: "('t, 'z) collab_scheme \<Rightarrow> nat \<Rightarrow> real ndarray \<Rightarrow> bool" where
  "hull_ready C D obs =
     (nrows obs \<le> D \<or> (if 2 \<le> D then \<not> isl (delaunay C (rows obs)) else D = 1 \<and> flat obs \<noteq> []))"

definition hull_inside :: "('t, 'z) collab_scheme \<Rightarrow> nat \<Rightarrow> real ndarray \<Rightarrow> real list \<Rightarrow> bool" where
  "hull_inside C D obs q =
     (if nrows obs \<le> D then False
      else if 2 \<le> D then 0 \<le> projr (delaunay C (rows obs)) q
      else fold min (tl (flat obs)) (hd (flat obs)) \<le> q ! 0 \<and>
           q ! 0 \<le> fold max (tl (flat obs)) (hd (flat obs)))"

text \<open>The value of the global interpolant at one target, before any masking.\<close>

definition gl_value :: "('t, 'z) collab_scheme \<Rightarrow> RBFInterpolant \<Rightarrow> diff_arg \<Rightarrow> real list \<Rightarrow> pyfloat" where
  "gl_value C s diff q =
     fadd (fdot (kernel_row (gl_phi s) (gl_eps s) diff (rows (gl_y s)) q) (gl_phi_coeff s))
          (fdot (map (monomial C diff q) (gl_pwr s)) (gl_poly_coeff s))"








text \<open>A later store extends an earlier one and agrees with it on every old address.\<close>

definition frame :: "'t heap \<Rightarrow> 't heap \<Rightarrow> bool" where
  "frame h h' = (length h \<le> length h' \<and> (\<forall>a<length h. h' ! a = h ! a))"

text \<open>
  The store holds an interpolant at an address: the object is there, and its attributes
  read as the fields of the record.
\<close>

definition holds_global :: "'u heap \<Rightarrow> addr \<Rightarrow> RBFInterpolant \<Rightarrow> bool" where
  "holds_global h self g =
     (\<exists>s. load_global h self = Inr s \<and>
          load_reals h (whole (at_y s)) = Inr (gl_y g) \<and>
          the_phi s = gl_phi g \<and> the_order s = gl_order g \<and> the_eps s = gl_eps g \<and>
          load_floats h (at_phi_coeff s) = Inr (gl_phi_coeff g) \<and>
          load_floats h (at_poly_coeff s) = Inr (gl_poly_coeff g) \<and>
          load_exponents h (at_pwr s) = Inr (gl_pwr g) \<and>
          the_extrapolate s = gl_extrapolate g)"

definition holds_nearest :: "'t heap \<Rightarrow> addr \<Rightarrow> 't NearestRBFInterpolant \<Rightarrow> bool" where
  "holds_nearest h self n =
     (\<exists>s. load_nearest h self = Inr s \<and>
          load_reals h (whole (nat_y s)) = Inr (nr_y n) \<and>
          load_reals1 h (nat_d s) = Inr (flat (nr_d n)) \<and>
          load_reals1 h (nat_sigma s) = Inr (nr_sigma n) \<and>
          nthe_k s = nr_k n \<and> nthe_eps s = nr_eps n \<and> nthe_phi s = nr_phi n \<and>
          nthe_order s = nr_order n \<and>
          load_tree h (nat_tree s) = Inr (nr_tree n))"

text \<open>
  A result on the store agrees with a result of the evaluation on values: the same
  error, or an address at which the store holds the same output.
\<close>

definition agrees :: "'u heap \<times> (error + addr) \<Rightarrow> error + pyfloat list \<Rightarrow> bool" where
  "agrees hr p =
     (case p of
        Inl e \<Rightarrow> snd hr = Inl e
      | Inr out \<Rightarrow> (case snd hr of Inl e \<Rightarrow> False | Inr a \<Rightarrow> load_floats (fst hr) a = Inr out))"


section \<open>Laws of the call log\<close>

lemma and_then_ret [simp]: "and_then (ret v) f = f v"
  by (simp add: and_then_def ret_def split: prod.splits)

lemma and_then_raise [simp]: "and_then (raise e) f = raise e"
  by (simp add: and_then_def raise_def)

lemma outcome_ret [simp]: "outcome (ret v) = Inr v"
  by (simp add: outcome_def ret_def)

lemma events_ret [simp]: "events (ret v) = []"
  by (simp add: events_def ret_def)

lemma outcome_raise [simp]: "outcome (raise e) = Inl e"
  by (simp add: outcome_def raise_def)

lemma events_raise [simp]: "events (raise e) = []"
  by (simp add: events_def raise_def)

lemma outcome_logged [simp]: "outcome (logged ev v) = Inr v"
  by (simp add: outcome_def logged_def)

lemma events_logged [simp]: "events (logged ev v) = [ev]"
  by (simp add: events_def logged_def)

lemma outcome_lift [simp]: "outcome (lift ev r) = r"
  by (simp add: outcome_def lift_def)

lemma events_lift [simp]: "events (lift ev r) = [ev]"
  by (simp add: events_def lift_def)

lemma outcome_and_then:
  "outcome (and_then m f) = (case outcome m of Inl e \<Rightarrow> Inl e | Inr v \<Rightarrow> outcome (f v))"
  by (simp add: outcome_def and_then_def split: prod.splits sum.splits)

lemma events_and_then:
  "events (and_then m f) =
     (case outcome m of Inl e \<Rightarrow> events m | Inr v \<Rightarrow> events m @ events (f v))"
  by (simp add: outcome_def events_def and_then_def split: prod.splits sum.splits)

lemma run_eqI: "events m = events m' \<Longrightarrow> outcome m = outcome m' \<Longrightarrow> m = m'"
  by (simp add: events_def outcome_def prod_eq_iff)

lemma outcome_assert_shape [simp]:
  "outcome (assert_shape a spec) = (if shape_ok (shape a) spec then Inr () else Inl ShapeMismatchError)"
  by (simp add: assert_shape_def)

lemma events_assert_shape [simp]: "events (assert_shape a spec) = []"
  by (simp add: assert_shape_def)

lemma events_resolve_sigma [simp]: "events (resolve_sigma sg n) = []"
  by (simp add: resolve_sigma_def events_and_then split: sigma_arg.splits sum.splits)

lemma outcome_resolve_sigma:
  "outcome (resolve_sigma sg n) =
     (case sg of
        Sigma_scalar v \<Rightarrow> Inr (replicate n v)
      | Sigma_array a \<Rightarrow> if shape_ok (shape a) [Some n] then Inr (flat a) else Inl ShapeMismatchError)"
  by (simp add: resolve_sigma_def outcome_and_then split: sigma_arg.splits)
lemma outcome_pair [simp]: "outcome (l, r) = r"
  by (simp add: outcome_def)

lemma events_pair [simp]: "events (l, r) = l"
  by (simp add: events_def)


section \<open>Shapes, rows and slices\<close>

lemma nrows_shape2 [simp]: "shape a = [n, m] \<Longrightarrow> nrows a = n"
  by (simp add: nrows_def)

lemma ncols_shape2 [simp]: "shape a = [n, m] \<Longrightarrow> ncols a = m"
  by (simp add: ncols_def)

lemma length_rows [simp]: "length (rows a) = nrows a"
  by (simp add: rows_def)

lemma rows_nth: "i < nrows a \<Longrightarrow> rows a ! i = take (ncols a) (drop (i * ncols a) (flat a))"
  by (simp add: rows_def)

lemma clip_index_nonneg: "0 \<le> i \<Longrightarrow> clip_index n i = min (nat i) n"
  by (simp add: clip_index_def)

lemma shape_slice_rows [simp]:
  "shape (slice_rows x a b) = [clip_index (nrows x) b - clip_index (nrows x) a, ncols x]"
  by (simp add: slice_rows_def Let_def)

lemma take_drop_block:
  fixes D :: nat
  assumes "i < n"
  shows "take D (drop (i * D) (take (n * D) (drop (a * D) xs))) = take D (drop ((a + i) * D) xs)"
proof -
  have "Suc i \<le> n" using assms by simp
  then have "Suc i * D \<le> n * D" by (rule mult_le_mono1)
  then have m: "min D (n * D - i * D) = D" by simp
  have "take D (drop (i * D) (take (n * D) (drop (a * D) xs)))
      = take D (take (n * D - i * D) (drop (i * D) (drop (a * D) xs)))"
    by (simp only: drop_take)
  also have "\<dots> = take D (drop (i * D) (drop (a * D) xs))"
    by (simp only: take_take m)
  also have "\<dots> = take D (drop ((a + i) * D) xs)"
    by (simp only: drop_drop add_mult_distrib add.commute)
  finally show ?thesis .
qed

lemma clip_index_le: "clip_index n i \<le> n"
  by (auto simp: clip_index_def max_def)

lemma nrows_slice_rows [simp]:
  "nrows (slice_rows x a b) = clip_index (nrows x) b - clip_index (nrows x) a"
  by (simp add: nrows_def [of "slice_rows x a b"])

lemma ncols_slice_rows [simp]: "ncols (slice_rows x a b) = ncols x"
  by (simp add: ncols_def [of "slice_rows x a b"])

lemma flat_slice_rows:
  "flat (slice_rows x a b)
     = take ((clip_index (nrows x) b - clip_index (nrows x) a) * ncols x)
         (drop (clip_index (nrows x) a * ncols x) (flat x))"
  by (simp add: slice_rows_def Let_def)

lemma rows_slice_rows:
  "rows (slice_rows x a b)
     = take (clip_index (nrows x) b - clip_index (nrows x) a) (drop (clip_index (nrows x) a) (rows x))"
proof (rule nth_equalityI)
  have "clip_index (nrows x) b \<le> nrows x" by (rule clip_index_le)
  then show "length (rows (slice_rows x a b)) =
    length (take (clip_index (nrows x) b - clip_index (nrows x) a) (drop (clip_index (nrows x) a) (rows x)))"
    by simp
next
  fix i assume "i < length (rows (slice_rows x a b))"
  then have i: "i < clip_index (nrows x) b - clip_index (nrows x) a"
    by simp
  have le: "clip_index (nrows x) b \<le> nrows x"
    by (rule clip_index_le)
  from i le have j: "clip_index (nrows x) a + i < nrows x" by linarith
  have "rows (slice_rows x a b) ! i
      = take (ncols x) (drop (i * ncols x) (flat (slice_rows x a b)))"
    using i by (simp add: rows_nth)
  also have "\<dots> = take (ncols x) (drop ((clip_index (nrows x) a + i) * ncols x) (flat x))"
    using i by (simp only: flat_slice_rows take_drop_block)
  also have "\<dots> = rows x ! (clip_index (nrows x) a + i)"
    using j by (simp add: rows_nth)
  finally show "rows (slice_rows x a b) ! i =
         take (clip_index (nrows x) b - clip_index (nrows x) a) (drop (clip_index (nrows x) a) (rows x)) ! i"
    using i j by simp
qed

section \<open>The chunking loop\<close>

declare py_range.simps [simp del]

lemma py_range_step: "0 < step \<Longrightarrow> start < stop \<Longrightarrow>
    py_range start stop step = start # py_range (start + step) stop step"
  by (subst py_range.simps) simp

lemma py_range_done: "0 < step \<Longrightarrow> \<not> start < stop \<Longrightarrow> py_range start stop step = []"
  by (subst py_range.simps) simp

lemma py_range_negative: "step < 0 \<Longrightarrow> start \<le> stop \<Longrightarrow> py_range start stop step = []"
  by (subst py_range.simps) simp

lemma assign_slice_exact:
  assumes "0 \<le> start" "0 < step" "nat start \<le> length out"
    and "length v = min (nat (start + step)) (length out) - nat start"
  shows "assign_slice out start (start + step) v
           = ret (take (nat start) out @ v @ drop (nat start + length v) out)"
  using assms
  by (auto simp: assign_slice_def Let_def clip_index_def min_def)

lemma events_assign_slice [simp]: "events (assign_slice out a b v) = []"
  by (simp add: assign_slice_def Let_def)

lemma rows_chunk:
  assumes "0 \<le> start" "0 < step"
  shows "rows (slice_rows x start (start + step)) = take (nat step) (drop (nat start) (rows x))"
proof -
  have a: "clip_index (nrows x) start = min (nat start) (nrows x)"
    using assms by (simp add: clip_index_def)
  have b: "clip_index (nrows x) (start + step) = min (nat start + nat step) (nrows x)"
    using assms by (simp add: clip_index_def nat_add_distrib)
  show ?thesis
    unfolding rows_slice_rows a b
    by (rule nth_equalityI) (auto simp: min_def)
qed


lemma outcome_chunk_loop_Cons:
  "outcome (chunk_loop f x c (start # rest) out) =
     (case outcome (f (slice_rows x start (start + c))) of
        Inl e \<Rightarrow> Inl e
      | Inr v \<Rightarrow>
          (case outcome (assign_slice out start (start + c) v) of
             Inl e \<Rightarrow> Inl e
           | Inr out' \<Rightarrow> outcome (chunk_loop f x c rest out')))"
  by (simp add: Let_def outcome_and_then split: sum.splits)

lemma events_chunk_loop_Cons:
  "events (chunk_loop f x c (start # rest) out) =
     (case outcome (f (slice_rows x start (start + c))) of
        Inl e \<Rightarrow> events (f (slice_rows x start (start + c)))
      | Inr v \<Rightarrow>
          (case outcome (assign_slice out start (start + c) v) of
             Inl e \<Rightarrow> events (f (slice_rows x start (start + c)))
           | Inr out' \<Rightarrow>
               events (f (slice_rows x start (start + c))) @ events (chunk_loop f x c rest out')))"
  by (simp add: Let_def events_and_then outcome_and_then split: sum.splits)

declare chunk_loop.simps(2) [simp del]

lemma rowwiseD:
  assumes "rowwise f D good ok g" "shape xc = [n, D]"
  shows "good \<and> list_all ok (rows xc) \<Longrightarrow> outcome (f xc) = Inr (map g (rows xc))"
    and "\<not> (good \<and> list_all ok (rows xc)) \<Longrightarrow> \<exists>e. outcome (f xc) = Inl e"
  using assms unfolding rowwise_def by metis+

lemma chunk_loop_rowwise:
  assumes rw: "rowwise f D good ok g" and sh: "shape x = [P, D]"
  shows "0 < c \<Longrightarrow> 0 \<le> start \<Longrightarrow> stop = int P \<Longrightarrow>
     out = map g (take (nat start) (rows x)) @ replicate (P - nat start) (Val 0) \<Longrightarrow>
     (good \<and> list_all ok (drop (nat start) (rows x)) \<longrightarrow>
        outcome (chunk_loop f x c (py_range start stop c) out) = Inr (map g (rows x))) \<and>
     (\<not> (good \<and> list_all ok (drop (nat start) (rows x))) \<and> start < stop \<longrightarrow>
        (\<exists>e. outcome (chunk_loop f x c (py_range start stop c) out) = Inl e))"
proof (induction start stop c arbitrary: out rule: py_range.induct)
  case (1 start stop step)
  let ?R = "rows x"
  let ?a = "nat start"
  let ?c = "nat step"
  have len: "length ?R = P" using sh by simp
  have step: "0 < step" and st: "0 \<le> start" and stop: "stop = int P"
    and out: "out = map g (take ?a ?R) @ replicate (P - ?a) (Val 0)"
    using "1.prems" by auto
  show ?case
  proof (cases "start < stop")
    case False
    then have r: "py_range start stop step = []" using step by (simp add: py_range_done)
    have "P \<le> ?a" using False stop st by linarith
    then have "out = map g ?R" using out len by simp
    then show ?thesis using r False by simp
  next
    case True
    then have r: "py_range start stop step = start # py_range (start + step) stop step"
      using step by (simp add: py_range_step)
    let ?xc = "slice_rows x start (start + step)"
    have aP: "?a < P" using True stop st by linarith
    have rc: "rows ?xc = take ?c (drop ?a ?R)" using st step by (rule rows_chunk)
    have shc: "shape ?xc = [nrows ?xc, D]" using sh by simp
    have nxt: "nat (start + step) = ?a + ?c" using st step by (simp add: nat_add_distrib)
    have split: "drop ?a ?R = take ?c (drop ?a ?R) @ drop (?a + ?c) ?R"
      by (metis append_take_drop_id drop_drop add.commute)
    have all_split: "list_all ok (drop ?a ?R) \<longleftrightarrow>
        list_all ok (rows ?xc) \<and> list_all ok (drop (?a + ?c) ?R)"
      by (subst split) (simp add: rc)
    show ?thesis
    proof (cases "good \<and> list_all ok (rows ?xc)")
      case False
      then obtain e where "outcome (f ?xc) = Inl e" using rowwiseD(2) [OF rw shc] by blast
      then have "outcome (chunk_loop f x step (py_range start stop step) out) = Inl e"
        by (simp add: r outcome_chunk_loop_Cons)
      then show ?thesis using False all_split by auto
    next
      case ok: True
      let ?v = "map g (rows ?xc)"
      have fv: "outcome (f ?xc) = Inr ?v" using rowwiseD(1) [OF rw shc] ok by blast
      have lv: "length ?v = min (nat (start + step)) (length out) - ?a"
        using out len aP by (auto simp: rc nxt min_def)
      let ?out' = "take ?a out @ ?v @ drop (?a + length ?v) out"
      have asg: "assign_slice out start (start + step) ?v = ret ?out'"
        using st step _ lv by (rule assign_slice_exact) (use out len aP in simp)
      have out': "?out' = map g (take (nat (start + step)) ?R)
                     @ replicate (P - nat (start + step)) (Val 0)"
        using len aP by (simp add: out rc nxt take_add min_def)
      have loop: "outcome (chunk_loop f x step (py_range start stop step) out)
                 = outcome (chunk_loop f x step (py_range (start + step) stop step) ?out')"
        by (simp add: r outcome_chunk_loop_Cons fv asg)
      have ih: "(good \<and> list_all ok (drop (nat (start + step)) ?R) \<longrightarrow>
            outcome (chunk_loop f x step (py_range (start + step) stop step) ?out') = Inr (map g ?R)) \<and>
          (\<not> (good \<and> list_all ok (drop (nat (start + step)) ?R)) \<and> start + step < stop \<longrightarrow>
            (\<exists>e. outcome (chunk_loop f x step (py_range (start + step) stop step) ?out') = Inl e))"
        using "1.IH"(1) [of ?out'] step True st stop out' by simp
      have later: "\<not> list_all ok (drop (?a + ?c) ?R) \<Longrightarrow> start + step < stop"
      proof -
        assume "\<not> list_all ok (drop (?a + ?c) ?R)"
        then have "drop (?a + ?c) ?R \<noteq> []" by auto
        then have "?a + ?c < P" using len by simp
        then show ?thesis using stop st step by linarith
      qed
      show ?thesis
        using ih later ok all_split unfolding loop nxt by blast
    qed
  qed
qed

lemma outcome_chunked:
  "c \<noteq> 0 \<Longrightarrow> outcome (chunked f x c)
          = outcome (chunk_loop f x c (py_range 0 (int (nrows x)) c) (replicate (nrows x) (Val 0)))"
  by (simp add: chunked_def checked_range_def)


lemma chunked_rowwise:
  assumes rw: "rowwise f D good ok g" and sh: "shape x = [P, D]" and c: "0 < c"
  shows "(good \<and> list_all ok (rows x) \<longrightarrow> outcome (chunked f x c) = Inr (map g (rows x))) \<and>
         (\<not> (good \<and> list_all ok (rows x)) \<and> 0 < P \<longrightarrow> (\<exists>e. outcome (chunked f x c) = Inl e))"
proof -
  have P: "nrows x = P" using sh by simp
  have o: "outcome (chunked f x c)
          = outcome (chunk_loop f x c (py_range 0 (int P) c) (replicate P (Val 0)))"
    using c outcome_chunked [of c f x] by (simp only: P)
  have init: "replicate P (Val 0)
          = map g (take (nat 0) (rows x)) @ replicate (P - nat 0) (Val 0)"
    by simp
  have z: "(0::int) \<le> 0" by simp
  note main = chunk_loop_rowwise [OF rw sh c z refl init]
  have d: "drop (nat 0) (rows x) = rows x" by simp
  show ?thesis
    using main unfolding o d by simp
qed


section \<open>One batch of the global interpolant\<close>

lemma map2_map_map: "map2 f (map g xs) (map h xs) = map (\<lambda>x. f (g x) (h x)) xs"
  by (induction xs) simp_all


lemma map2_replicate_right: "n = length xs \<Longrightarrow> map2 f xs (replicate n b) = map (\<lambda>x. f x b) xs"
  by (induction xs arbitrary: n) auto

lemma in_hull_ok:
  assumes "shape xc = [n, D]" "hull_ready C D obs"
  shows "outcome (in_hull C xc obs) = Inr (map (hull_inside C D obs) (rows xc))"
proof -
  consider (few) "nrows obs \<le> D" | (tri) "\<not> nrows obs \<le> D" "2 \<le> D" | (line) "\<not> nrows obs \<le> D" "\<not> 2 \<le> D"
    by blast
  then show ?thesis
  proof cases
    case few
    have "replicate n False = map (\<lambda>q. False) (rows xc)"
      using assms by (simp add: map_replicate_const)
    then show ?thesis using assms few by (simp add: in_hull_def hull_inside_def)
  next
    case tri
    then obtain fs where "delaunay C (rows obs) = Inr fs"
      using assms by (cases "delaunay C (rows obs)") (auto simp: hull_ready_def)
    then show ?thesis using assms tri
      by (simp add: in_hull_def hull_inside_def outcome_and_then)
  next
    case line
    then have D: "D = 1" and ne: "flat obs \<noteq> []" using assms by (auto simp: hull_ready_def)
    then obtain v vs where f: "flat obs = v # vs" by (cases "flat obs") auto
    show ?thesis using assms line D f
      by (simp add: in_hull_def hull_inside_def outcome_and_then np_min_def np_max_def column0_def)
  qed
qed

lemma in_hull_fails:
  assumes "shape xc = [n, D]" "\<not> hull_ready C D obs"
  shows "\<exists>e. outcome (in_hull C xc obs) = Inl e"
proof (cases "2 \<le> D")
  case True
  then show ?thesis using assms
    by (cases "delaunay C (rows obs)") (auto simp: hull_ready_def in_hull_def outcome_and_then)
next
  case False
  then show ?thesis using assms
    by (cases "flat obs")
       (auto simp: hull_ready_def in_hull_def outcome_and_then np_min_def np_max_def column0_def)
qed

lemma length_in_hull:
  assumes "shape xc = [n, D]" "outcome (in_hull C xc obs) = Inr m"
  shows "length m = n"
proof (cases "hull_ready C D obs")
  case True
  from in_hull_ok [OF assms(1) True] assms show ?thesis by auto
next
  case False
  from in_hull_fails [OF assms(1) False] assms(2) show ?thesis by auto
qed

lemma gl_raw_values:
  "map2 fadd (map (\<lambda>r. fdot r (gl_phi_coeff s))
                 (kernel_matrix (gl_phi s) (gl_eps s) diff (rows xc) (rows (gl_y s))))
             (map (\<lambda>r. fdot r (gl_poly_coeff s)) (mvmonos C diff (rows xc) (gl_pwr s)))
     = map (gl_value C s diff) (rows xc)"
  by (simp add: kernel_matrix_def mvmonos_def map2_map_map gl_value_def)

lemma RBFInterpolant_batch_values:
  "outcome (RBFInterpolant_batch C s xc diff) =
     (if gl_extrapolate s then Inr (map (gl_value C s diff) (rows xc))
      else case outcome (in_hull C xc (gl_y s)) of
             Inl e \<Rightarrow> Inl e
           | Inr inside \<Rightarrow> Inr (mask_outside (map (gl_value C s diff) (rows xc)) inside))"
proof (cases "gl_extrapolate s")
  case True
  then show ?thesis
    unfolding RBFInterpolant_batch_def Let_def
    by (simp add: outcome_and_then gl_raw_values)
next
  case False
  then show ?thesis
    unfolding RBFInterpolant_batch_def Let_def
    by (cases "outcome (in_hull C xc (gl_y s))") (simp_all add: outcome_and_then gl_raw_values)
qed

lemma shape_ok_2 [simp]: "shape_ok [n, m] [None, Some D] \<longleftrightarrow> m = D"
  by (simp add: shape_ok_def)

lemma list_all_True [simp]: "list_all (\<lambda>_. True) xs"
  by (simp add: list_all_iff)

lemma outcome_RBFInterpolant_call_None:
  assumes "shape xc = [n, ncols (gl_y s)]"
  shows "outcome (RBFInterpolant_call_None C s xc diff) = outcome (RBFInterpolant_batch C s xc diff)"
  using assms by (simp add: RBFInterpolant_call_None_def outcome_and_then)

lemma RBFInterpolant_rowwise:
  "rowwise (\<lambda>xc. RBFInterpolant_call_None C s xc diff) (ncols (gl_y s))
     (gl_extrapolate s \<or> hull_ready C (ncols (gl_y s)) (gl_y s))
     (\<lambda>_. True)
     (\<lambda>q. if gl_extrapolate s \<or> hull_inside C (ncols (gl_y s)) (gl_y s) q
          then gl_value C s diff q else NaN)"
  unfolding rowwise_def
proof (intro allI impI)
  fix xc :: "real ndarray" and n
  assume sh: "shape xc = [n, ncols (gl_y s)]"
  let ?D = "ncols (gl_y s)"
  let ?f = "\<lambda>xc. RBFInterpolant_call_None C s xc diff"
  let ?g = "\<lambda>q. if gl_extrapolate s \<or> hull_inside C ?D (gl_y s) q then gl_value C s diff q else NaN"
  note o = outcome_RBFInterpolant_call_None [OF sh, of C diff]
  consider (ex) "gl_extrapolate s" | (ready) "\<not> gl_extrapolate s" "hull_ready C ?D (gl_y s)"
    | (fail) "\<not> gl_extrapolate s" "\<not> hull_ready C ?D (gl_y s)" by blast
  then show "if (gl_extrapolate s \<or> hull_ready C ?D (gl_y s)) \<and> list_all (\<lambda>_. True) (rows xc)
        then outcome (?f xc) = Inr (map ?g (rows xc))
        else \<exists>e. outcome (?f xc) = Inl e"
  proof cases
    case ex
    then show ?thesis by (simp add: o RBFInterpolant_batch_values)
  next
    case ready
    then show ?thesis
      by (simp add: o RBFInterpolant_batch_values in_hull_ok [OF sh] mask_outside_def map2_map_map)
  next
    case fail
    from in_hull_fails [OF sh fail(2)] obtain e where "outcome (in_hull C xc (gl_y s)) = Inl e" ..
    then show ?thesis using fail by (simp add: o RBFInterpolant_batch_values)
  qed
qed


section \<open>One batch of the local interpolant\<close>





lemma nr_batch_insufficient:
  fixes xc :: "real ndarray"
  assumes "nr_k s < int (length (powers C (nr_order s) (ncols (nr_y s))))"
  shows "NearestRBFInterpolant_batch C s xc diff = ([Call_powers], Inl InsufficientDataError)"
  using assms
  by (simp add: NearestRBFInterpolant_batch_def and_then_def logged_def raise_def)


lemma outcome_NearestRBFInterpolant_call_None:
  fixes xc :: "real ndarray"
  assumes "shape xc = [n, ncols (nr_y s)]"
  shows "outcome (NearestRBFInterpolant_call_None C s xc diff)
           = outcome (NearestRBFInterpolant_batch C s xc diff)"
    and "events (NearestRBFInterpolant_call_None C s xc diff)
           = events (NearestRBFInterpolant_batch C s xc diff)"
  using assms
  by (simp_all add: NearestRBFInterpolant_call_None_def outcome_and_then events_and_then)



section \<open>Chunked and single-pass evaluation\<close>

lemma outcome_RBFInterpolant_call:
  fixes x :: "real ndarray"
  assumes "shape x = [P, ncols (gl_y s)]"
  shows "outcome (RBFInterpolant_call C s x diff None) = outcome (RBFInterpolant_call_None C s x diff)"
    and "c \<noteq> 0 \<Longrightarrow> outcome (RBFInterpolant_call C s x diff (Some c))
           = outcome (chunked (\<lambda>xc. RBFInterpolant_call_None C s xc diff) x c)"
  using assms
  by (simp_all add: RBFInterpolant_call_def RBFInterpolant_call_None_def outcome_and_then)

lemma outcome_NearestRBFInterpolant_call:
  fixes x :: "real ndarray"
  assumes "shape x = [P, ncols (nr_y s)]"
  shows "outcome (NearestRBFInterpolant_call C s x diff None)
           = outcome (NearestRBFInterpolant_call_None C s x diff)"
    and "c \<noteq> 0 \<Longrightarrow> outcome (NearestRBFInterpolant_call C s x diff (Some c))
           = outcome (chunked (\<lambda>xc. NearestRBFInterpolant_call_None C s xc diff) x c)"
  using assms
  by (simp_all add: NearestRBFInterpolant_call_def NearestRBFInterpolant_call_None_def outcome_and_then)


lemma events_chunk_loop_notin:
  assumes "\<And>xc. ev \<notin> set (events (f xc))"
  shows "ev \<notin> set (events (chunk_loop f x c starts out))"
proof (induction starts arbitrary: out)
  case Nil
  then show ?case by simp
next
  case (Cons start rest)
  then show ?case
    using assms by (auto simp: events_chunk_loop_Cons split: sum.splits)
qed

lemma events_chunked_notin:
  assumes "\<And>xc. ev \<notin> set (events (f xc))"
  shows "ev \<notin> set (events (chunked f x c))"
  using events_chunk_loop_notin [of ev f, OF assms]
  by (simp add: chunked_def checked_range_def events_and_then)

lemma events_nr_batch_insufficient:
  fixes xc :: "real ndarray"
  assumes "nr_k s < int (length (powers C (nr_order s) (ncols (nr_y s))))"
  shows "Call_tree_query \<notin> set (events (NearestRBFInterpolant_call_None C s xc diff))"
  using assms
  by (simp add: NearestRBFInterpolant_call_None_def events_and_then nr_batch_insufficient
      split: sum.splits)

lemma chunked_first_fails:
  fixes x :: "real ndarray"
  assumes "0 < c" "0 < nrows x" "outcome (f (slice_rows x 0 (0 + c))) = Inl e"
  shows "outcome (chunked f x c) = Inl e"
proof -
  have "py_range 0 (int (nrows x)) c = 0 # py_range (0 + c) (int (nrows x)) c"
    using assms by (intro py_range_step) auto
  then show ?thesis
    using assms by (simp add: outcome_chunked outcome_chunk_loop_Cons)
qed

lemma NearestRBFInterpolant_init_valid:
  assumes "shape_ok (shape y) [None, None]" and "shape_ok (shape d) [Some (nrows y)]"
    and "outcome (resolve_sigma sg (nrows y)) = Inr sigma"
    and "get_rbf C ph = Inr r"
  shows "NearestRBFInterpolant_init C y d sg k eps ph ord =
           (if is_sparse r then ([Call_get_rbf], Inl ConfigurationError)
            else ([Call_get_rbf, Call_KDTree],
                  Inr \<lparr>nr_y = y, nr_d = d, nr_sigma = sigma, nr_k = k, nr_eps = eps,
                       nr_phi = r, nr_order = ord, nr_tree = kdtree C y\<rparr>))"
proof -
  have a: "assert_shape y [None, None] = ret ()" "assert_shape d [Some (nrows y)] = ret ()"
    using assms by (simp_all add: assert_shape_def)
  have s: "resolve_sigma sg (nrows y) = ret sigma"
    using assms(3) by (intro run_eqI) simp_all
  show ?thesis
    by (simp add: NearestRBFInterpolant_init_def a s assms(4) lift_def logged_def and_then_def
          ret_def raise_def)
qed

lemma gl_value_extrapolate [simp]:
  "gl_value C (s\<lparr>gl_extrapolate := b\<rparr>) diff q = gl_value C s diff q"
  by (simp add: gl_value_def)

lemma RBFInterpolant_call_values:
  fixes x :: "real ndarray"
  assumes sh: "shape x = [P, ncols (gl_y s)]"
    and cs: "chunk_size = None \<or> (\<exists>c. chunk_size = Some c \<and> 0 < c)"
    and good: "gl_extrapolate s \<or> hull_ready C (ncols (gl_y s)) (gl_y s)"
  shows "outcome (RBFInterpolant_call C s x diff chunk_size)
           = Inr (map (\<lambda>q. if gl_extrapolate s \<or> hull_inside C (ncols (gl_y s)) (gl_y s) q
                           then gl_value C s diff q else NaN) (rows x))"
proof -
  note rw = RBFInterpolant_rowwise [of C s diff]
  from cs show ?thesis
  proof
    assume "chunk_size = None"
    then show ?thesis
      using rowwiseD(1) [OF rw sh] good by (simp add: outcome_RBFInterpolant_call(1) [OF sh])
  next
    assume "\<exists>c. chunk_size = Some c \<and> 0 < c"
    then obtain c where c: "chunk_size = Some c" "0 < c" by blast
    then show ?thesis
      using chunked_rowwise [OF rw sh c(2)] good
      by (simp add: outcome_RBFInterpolant_call(2) [OF sh])
  qed
qed

lemma RBFInterpolant_call_not_ready:
  fixes x :: "real ndarray"
  assumes sh: "shape x = [P, ncols (gl_y s)]"
    and cs: "chunk_size = None \<or> (\<exists>c. chunk_size = Some c \<and> 0 < c)"
    and bad: "\<not> gl_extrapolate s" "\<not> hull_ready C (ncols (gl_y s)) (gl_y s)"
    and ok: "outcome (RBFInterpolant_call C s x diff chunk_size) = Inr out"
  shows "P = 0 \<and> out = []"
proof -
  note rw = RBFInterpolant_rowwise [of C s diff]
  from cs show ?thesis
  proof
    assume "chunk_size = None"
    then show ?thesis
      using rowwiseD(2) [OF rw sh] bad ok by (auto simp: outcome_RBFInterpolant_call(1) [OF sh])
  next
    assume "\<exists>c. chunk_size = Some c \<and> 0 < c"
    then obtain c where c: "chunk_size = Some c" "0 < c" by blast
    have o: "outcome (chunked (\<lambda>xc. RBFInterpolant_call_None C s xc diff) x c) = Inr out"
      using ok c by (simp add: outcome_RBFInterpolant_call(2) [OF sh])
    have P: "P = 0"
      using chunked_rowwise [OF rw sh c(2)] bad o by auto
    then have "x = x \<and> nrows x = 0" using sh by simp
    then have "outcome (chunked (\<lambda>xc. RBFInterpolant_call_None C s xc diff) x c) = Inr []"
      using c(2) by (simp add: outcome_chunked py_range_done)
    with o P show ?thesis by simp
  qed
qed














section \<open>Construction of the global interpolant\<close>

text \<open>
  C1. Whenever the monomial count \<open>M = length (powers order D)\<close> exceeds the number of
  observations \<open>N\<close>, constructing the global interpolant produces no interpolant and
  never calls the block solver; and when the shape validation of \<open>y\<close>, \<open>d\<close> and
  \<open>sigma\<close> passes and the kernel is resolved, the failure is the
  \<open>InsufficientDataError\<close>.
\<close>

theorem RBFInterpolant_init_insufficient:
  assumes "nrows y < length (powers C ord (ncols y))"
  shows "(\<exists>e. outcome (RBFInterpolant_init C y d sg eps ph ord extrap) = Inl e) \<and>
         Call_PartitionedSolver_solve
           \<notin> set (events (RBFInterpolant_init C y d sg eps ph ord extrap)) \<and>
         (shape_ok (shape y) [None, None] \<and> shape_ok (shape d) [Some (nrows y)] \<and>
          (\<forall>a. sg = Sigma_array a \<longrightarrow> shape_ok (shape a) [Some (nrows y)]) \<and>
          (\<exists>r. get_rbf C ph = Inr r)
          \<longrightarrow> outcome (RBFInterpolant_init C y d sg eps ph ord extrap)
                = Inl InsufficientDataError)"
  using assms
  by (auto simp: RBFInterpolant_init_def outcome_and_then events_and_then
        outcome_resolve_sigma Let_def
      split: sum.splits if_splits sigma_arg.splits)

text \<open>One observation in one dimension with order 1: two monomials, one point.\<close>

theorem RBFInterpolant_init_insufficient_witness:
  "nrows \<lparr>shape = [1, 1], flat = [0::real]\<rparr>
     < length (powers sample_collab 1 (ncols \<lparr>shape = [1, 1], flat = [0::real]\<rparr>)) \<and>
   shape_ok (shape \<lparr>shape = [1, 1], flat = [0::real]\<rparr>) [None, None] \<and>
   shape_ok (shape \<lparr>shape = [1], flat = [5::real]\<rparr>) [Some 1] \<and>
   get_rbf sample_collab (Phi_name ''sqdist'') = Inr sample_rbf \<and>
   outcome (RBFInterpolant_init sample_collab \<lparr>shape = [1, 1], flat = [0]\<rparr>
              \<lparr>shape = [1], flat = [5]\<rparr> (Sigma_scalar 0) (Eps_scalar 1)
              (Phi_name ''sqdist'') 1 True) = Inl InsufficientDataError \<and>
   Call_PartitionedSolver_solve
     \<notin> set (events (RBFInterpolant_init sample_collab \<lparr>shape = [1, 1], flat = [0]\<rparr>
              \<lparr>shape = [1], flat = [5]\<rparr> (Sigma_scalar 0) (Eps_scalar 1)
              (Phi_name ''sqdist'') 1 True))"
proof -
  have h: "nrows \<lparr>shape = [1, 1], flat = [0::real]\<rparr>
     < length (powers sample_collab 1 (ncols \<lparr>shape = [1, 1], flat = [0::real]\<rparr>))"
    by code_simp
  have g: "shape_ok (shape \<lparr>shape = [1, 1], flat = [0::real]\<rparr>) [None, None] \<and>
     shape_ok (shape \<lparr>shape = [1], flat = [5::real]\<rparr>) [Some 1] \<and>
     get_rbf sample_collab (Phi_name ''sqdist'') = Inr sample_rbf"
    by (simp add: shape_ok_def sample_collab_def sample_get_rbf_def)
  from RBFInterpolant_init_insufficient [OF h, of "\<lparr>shape = [1], flat = [5]\<rparr>"
         "Sigma_scalar 0" "Eps_scalar 1" "Phi_name ''sqdist''" True] g h
  show ?thesis by (simp add: nrows_def)
qed

section \<open>The convex-hull test\<close>

lemma column0_single:
  assumes "shape p = [n, 1]" "wf_array p"
  shows "column0 p = ret (flat p)"
proof -
  have len: "length (flat p) = n" using assms by (simp add: wf_array_def)
  have "map (\<lambda>r. r ! 0) (rows p) = flat p"
    using assms len by (auto simp: rows_def intro!: nth_equalityI)
  then show ?thesis using assms by (simp add: column0_def)
qed

lemma np_min_Min: "flat a \<noteq> [] \<Longrightarrow> np_min a = ret (Min (set (flat a)))"
  by (cases "flat a") (simp_all add: np_min_def Min.set_eq_fold [symmetric] del: set_simps)

lemma np_max_Max: "flat a \<noteq> [] \<Longrightarrow> np_max a = ret (Max (set (flat a)))"
  by (cases "flat a") (simp_all add: np_max_def Max.set_eq_fold [symmetric] del: set_simps)

text \<open>
  C5. For query points \<open>p\<close> of shape \<open>(P, D)\<close> and observation points of shape
  \<open>(N, D)\<close>: with fewer than \<open>D + 1\<close> observation points every query point is
  classified outside the hull; with \<open>D = 1\<close> and at least two observation points a
  query point is inside exactly when it lies in the closed interval from the least to
  the greatest observation. In both cases no triangulation is requested.
\<close>

theorem in_hull_reference:
  assumes "shape p = [P, D]" and "shape obs = [N, D]" and "wf_array p" and "wf_array obs"
  shows "(N < D + 1 \<longrightarrow> in_hull C p obs = ret (replicate P False)) \<and>
         (D = 1 \<and> 2 \<le> N \<longrightarrow>
            in_hull C p obs
              = ret (map (\<lambda>v. Min (set (flat obs)) \<le> v \<and> v \<le> Max (set (flat obs))) (flat p)))"
proof (intro conjI impI)
  assume "N < D + 1"
  then show "in_hull C p obs = ret (replicate P False)"
    using assms by (simp add: in_hull_def)
next
  assume h: "D = 1 \<and> 2 \<le> N"
  then have "length (flat obs) = N" using assms by (simp add: wf_array_def)
  then have ne: "flat obs \<noteq> []" using h by auto
  show "in_hull C p obs
              = ret (map (\<lambda>v. Min (set (flat obs)) \<le> v \<and> v \<le> Max (set (flat obs))) (flat p))"
    using assms h by (simp add: in_hull_def np_min_Min [OF ne] np_max_Max [OF ne] column0_single)
qed

text \<open>
  A single observation in one dimension leaves both targets outside; the observations
  0, 1, 2 put -5 and 7 outside and the end point 2 and the interior point 1 inside.
\<close>

theorem in_hull_reference_witness:
  "in_hull sample_collab \<lparr>shape = [2, 1], flat = [0, 1 / 2]\<rparr> \<lparr>shape = [1, 1], flat = [0]\<rparr>
     = ret [False, False] \<and>
   in_hull sample_collab \<lparr>shape = [4, 1], flat = [- 5, 7, 1, 2]\<rparr> \<lparr>shape = [3, 1], flat = [0, 1, 2]\<rparr>
     = ret [False, False, True, True]"
proof -
  have a: "in_hull sample_collab \<lparr>shape = [2, 1], flat = [0, 1 / 2]\<rparr> \<lparr>shape = [1, 1], flat = [0]\<rparr>
     = ret [False, False]"
    using in_hull_reference [of "\<lparr>shape = [2, 1], flat = [0, 1 / 2]\<rparr>" 2 1
            "\<lparr>shape = [1, 1], flat = [0]\<rparr>" 1 sample_collab]
    by (simp add: wf_array_def numeral_2_eq_2)
  have b: "in_hull sample_collab \<lparr>shape = [4, 1], flat = [- 5, 7, 1, 2]\<rparr> \<lparr>shape = [3, 1], flat = [0, 1, 2]\<rparr>
     = ret [False, False, True, True]"
    using in_hull_reference [of "\<lparr>shape = [4, 1], flat = [- 5, 7, 1, 2]\<rparr>" 4 1
            "\<lparr>shape = [3, 1], flat = [0, 1, 2]\<rparr>" 3 sample_collab]
    by (simp add: wf_array_def)
  from a b show ?thesis by simp
qed

section \<open>The neighbourhood check of the local interpolant\<close>

text \<open>
  C2, as amended. For a local interpolant whose monomial count exceeds its
  neighbourhood size \<open>k\<close>, no evaluation call ever queries the spatial index; and
  the call fails with the \<open>InsufficientDataError\<close> whenever a batch is evaluated, that
  is, for targets of shape \<open>(P, D)\<close> with chunking disabled, or with a positive chunk
  size and at least one target.
\<close>

theorem nearest_call_insufficient:
  fixes x :: "real ndarray"
  assumes small: "nr_k s < int (length (powers C (nr_order s) (ncols (nr_y s))))"
  shows "Call_tree_query \<notin> set (events (NearestRBFInterpolant_call C s x diff chunk_size)) \<and>
         (shape x = [P, ncols (nr_y s)] \<and>
          (chunk_size = None \<or> (\<exists>c. chunk_size = Some c \<and> 0 < c \<and> 0 < P))
          \<longrightarrow> outcome (NearestRBFInterpolant_call C s x diff chunk_size)
                = Inl InsufficientDataError)"
proof (intro conjI impI)
  show "Call_tree_query \<notin> set (events (NearestRBFInterpolant_call C s x diff chunk_size))"
  proof (cases chunk_size)
    case None
    then show ?thesis using small
      by (simp add: NearestRBFInterpolant_call_def events_and_then nr_batch_insufficient
          split: sum.splits)
  next
    case (Some c)
    then show ?thesis
      using events_chunked_notin [of Call_tree_query
              "\<lambda>xc. NearestRBFInterpolant_call_None C s xc diff" x c,
              OF events_nr_batch_insufficient [OF small]]
      by (simp add: NearestRBFInterpolant_call_def events_and_then split: sum.splits)
  qed
next
  assume h: "shape x = [P, ncols (nr_y s)] \<and>
          (chunk_size = None \<or> (\<exists>c. chunk_size = Some c \<and> 0 < c \<and> 0 < P))"
  then have sh: "shape x = [P, ncols (nr_y s)]" by simp
  note o = outcome_NearestRBFInterpolant_call [OF sh]
  from h consider (single) "chunk_size = None"
    | (chunks) c where "chunk_size = Some c" "0 < c" "0 < P" by blast
  then show "outcome (NearestRBFInterpolant_call C s x diff chunk_size) = Inl InsufficientDataError"
  proof cases
    case single
    then show ?thesis
      using small sh by (simp add: o outcome_NearestRBFInterpolant_call_None nr_batch_insufficient)
  next
    case chunks
    let ?xc = "slice_rows x 0 (0 + c)"
    have "shape ?xc = [nrows ?xc, ncols (nr_y s)]" using sh by simp
    then have "outcome (NearestRBFInterpolant_call_None C s ?xc diff) = Inl InsufficientDataError"
      using small by (simp add: outcome_NearestRBFInterpolant_call_None nr_batch_insufficient)
    then have "outcome (chunked (\<lambda>xc. NearestRBFInterpolant_call_None C s xc diff) x c)
                 = Inl InsufficientDataError"
      using chunks sh by (intro chunked_first_fails) auto
    then show ?thesis using chunks by (simp add: o)
  qed
qed

text \<open>Three targets in chunks of two, one neighbour, two monomials.\<close>

theorem nearest_call_insufficient_witness:
  "nr_k sample_nearest_small
     < int (length (powers sample_collab (nr_order sample_nearest_small)
                      (ncols (nr_y sample_nearest_small)))) \<and>
   shape sample_x = [3, ncols (nr_y sample_nearest_small)] \<and>
   Call_tree_query
     \<notin> set (events (NearestRBFInterpolant_call sample_collab sample_nearest_small sample_x
                      None (Some 2))) \<and>
   outcome (NearestRBFInterpolant_call sample_collab sample_nearest_small sample_x None (Some 2))
     = Inl InsufficientDataError"
proof -
  have small: "nr_k sample_nearest_small
     < int (length (powers sample_collab (nr_order sample_nearest_small)
                      (ncols (nr_y sample_nearest_small))))"
    by code_simp
  have sh: "shape sample_x = [3, ncols (nr_y sample_nearest_small)]"
    by (simp add: sample_x_def sample_nearest_small_def sample_y_def ncols_def)
  have pos: "\<exists>c. Some (2::int) = Some c \<and> 0 < c \<and> (0::nat) < 3" by simp
  from nearest_call_insufficient [OF small, where x = sample_x and P = 3
         and chunk_size = "Some 2" and diff = None] sh pos small
  show ?thesis by blast
qed

text \<open>
  The claim as stated fails on an empty target set with the default chunk size: the
  call returns an empty output.
\<close>

theorem nearest_call_insufficient_counterexample:
  "nr_k sample_nearest_small
     < int (length (powers sample_collab (nr_order sample_nearest_small)
                      (ncols (nr_y sample_nearest_small)))) \<and>
   NearestRBFInterpolant_call sample_collab sample_nearest_small empty_x None (Some 100)
     = ([], Inr [])"
  by code_simp

section \<open>Construction of the local interpolant\<close>

text \<open>
  C3, as amended. Constructing a local interpolant does not compare the monomial count
  with \<open>k\<close>: when the shape validation passes and the kernel is resolved and not
  sparse, construction with \<open>M > k\<close> returns an interpolant, and the
  \<open>InsufficientDataError\<close> is raised when that interpolant evaluates a batch of
  targets.
\<close>

theorem nearest_init_defers_check:
  assumes "shape_ok (shape y) [None, None]" and "shape_ok (shape d) [Some (nrows y)]"
    and "outcome (resolve_sigma sg (nrows y)) = Inr sigma"
    and "get_rbf C ph = Inr r" and "\<not> is_sparse r"
    and "k < int (length (powers C ord (ncols y)))"
  shows "\<exists>s. outcome (NearestRBFInterpolant_init C y d sg k eps ph ord) = Inr s \<and>
             (\<forall>(x :: real ndarray) n diff. shape x = [n, ncols y] \<longrightarrow>
                outcome (NearestRBFInterpolant_call C s x diff None) = Inl InsufficientDataError)"
proof -
  let ?s = "\<lparr>nr_y = y, nr_d = d, nr_sigma = sigma, nr_k = k, nr_eps = eps,
                       nr_phi = r, nr_order = ord, nr_tree = kdtree C y\<rparr>"
  have i: "outcome (NearestRBFInterpolant_init C y d sg k eps ph ord) = Inr ?s"
    using assms(5) by (simp add: NearestRBFInterpolant_init_valid [OF assms(1-4)])
  have small: "nr_k ?s < int (length (powers C (nr_order ?s) (ncols (nr_y ?s))))"
    using assms(6) by simp
  have "outcome (NearestRBFInterpolant_call C ?s x diff None) = Inl InsufficientDataError"
    if "shape x = [n, ncols y]" for x :: "real ndarray" and n diff
  proof -
    have sh: "shape x = [n, ncols (nr_y ?s)]" using that by simp
    show ?thesis
      using small
      by (simp add: outcome_NearestRBFInterpolant_call(1) [OF sh]
            outcome_NearestRBFInterpolant_call_None(1) [OF sh] nr_batch_insufficient)
  qed
  with i show ?thesis by blast
qed

lemma sample_sigma_zero: "outcome (resolve_sigma (Sigma_scalar 0) (nrows sample_y)) = Inr [0, 0, 0]"
  by (simp add: resolve_sigma_def sample_y_def nrows_def numeral_3_eq_3)

lemma sample_shapes:
  "shape_ok (shape sample_y) [None, None]" "shape_ok (shape sample_d) [Some (nrows sample_y)]"
  by (simp_all add: shape_ok_def sample_y_def sample_d_def nrows_def)

lemma sample_resolved:
  "get_rbf sample_collab (Phi_name ''sqdist'') = Inr sample_rbf"
  "get_rbf sample_collab (Phi_name ''sparse'') = Inr sample_sparse_rbf"
  by (simp_all add: sample_collab_def sample_get_rbf_def)

lemma sample_two_monomials: "(1::int) < int (length (powers sample_collab 1 (ncols sample_y)))"
  by code_simp

theorem nearest_init_defers_check_witness:
  "shape_ok (shape sample_y) [None, None] \<and>
   shape_ok (shape sample_d) [Some (nrows sample_y)] \<and>
   get_rbf sample_collab (Phi_name ''sqdist'') = Inr sample_rbf \<and>
   \<not> is_sparse sample_rbf \<and>
   (1::int) < int (length (powers sample_collab 1 (ncols sample_y))) \<and>
   (\<exists>s. outcome (NearestRBFInterpolant_init sample_collab sample_y sample_d (Sigma_scalar 0) 1
                   (Eps_scalar 1) (Phi_name ''sqdist'') 1) = Inr s \<and>
        outcome (NearestRBFInterpolant_call sample_collab s sample_x None None)
          = Inl InsufficientDataError)"
proof -
  have ns: "\<not> is_sparse sample_rbf" by (simp add: sample_rbf_def)
  have sx: "shape sample_x = [3, ncols sample_y]"
    by (simp add: sample_x_def sample_y_def ncols_def)
  from nearest_init_defers_check [OF sample_shapes sample_sigma_zero sample_resolved(1) ns
         sample_two_monomials, of "Eps_scalar 1"]
  obtain s where
    "outcome (NearestRBFInterpolant_init sample_collab sample_y sample_d (Sigma_scalar 0) 1
                   (Eps_scalar 1) (Phi_name ''sqdist'') 1) = Inr s"
    "\<forall>(x :: real ndarray) n diff. shape x = [n, ncols sample_y] \<longrightarrow>
        outcome (NearestRBFInterpolant_call sample_collab s x diff None) = Inl InsufficientDataError"
    by blast
  then have "\<exists>s. outcome (NearestRBFInterpolant_init sample_collab sample_y sample_d (Sigma_scalar 0) 1
                   (Eps_scalar 1) (Phi_name ''sqdist'') 1) = Inr s \<and>
        outcome (NearestRBFInterpolant_call sample_collab s sample_x None None)
          = Inl InsufficientDataError"
    using sx by blast
  with sample_shapes sample_resolved(1) ns sample_two_monomials show ?thesis by blast
qed

text \<open>
  The claim as stated fails: with one neighbour and two monomials, construction
  returns the interpolant.
\<close>

theorem nearest_init_defers_check_counterexample:
  "(1::int) < int (length (powers sample_collab 1 (ncols sample_y))) \<and>
   outcome (NearestRBFInterpolant_init sample_collab sample_y sample_d (Sigma_scalar 0) 1
              (Eps_scalar 1) (Phi_name ''sqdist'') 1) = Inr sample_nearest_small"
proof -
  have ns: "\<not> is_sparse sample_rbf" by (simp add: sample_rbf_def)
  have r: "\<lparr>nr_y = sample_y, nr_d = sample_d, nr_sigma = [0, 0, 0], nr_k = 1,
            nr_eps = Eps_scalar 1, nr_phi = sample_rbf, nr_order = 1,
            nr_tree = kdtree sample_collab sample_y\<rparr> = sample_nearest_small"
    by (simp add: sample_nearest_small_def sample_collab_def)
  have "NearestRBFInterpolant_init sample_collab sample_y sample_d (Sigma_scalar 0) 1
              (Eps_scalar 1) (Phi_name ''sqdist'') 1
          = ([Call_get_rbf, Call_KDTree], Inr sample_nearest_small)"
    unfolding NearestRBFInterpolant_init_valid [OF sample_shapes sample_sigma_zero
              sample_resolved(1)] r
    using ns by simp
  with sample_two_monomials show ?thesis by simp
qed

text \<open>
  C4. When the kernel argument resolves to a kernel of the sparse-support family,
  constructing a local interpolant returns no interpolant and never builds the spatial
  index, and the failure is the \<open>ConfigurationError\<close> when the shape validation
  passes. For every other kernel, with the shape validation passed, the check passes:
  construction builds the spatial index over \<open>y\<close> and returns the interpolant that
  holds it.
\<close>

theorem nearest_init_kernel_check:
  assumes "get_rbf C ph = Inr r"
  shows "(is_sparse r \<longrightarrow>
            (\<exists>e. outcome (NearestRBFInterpolant_init C y d sg k eps ph ord) = Inl e) \<and>
            Call_KDTree \<notin> set (events (NearestRBFInterpolant_init C y d sg k eps ph ord)) \<and>
            (shape_ok (shape y) [None, None] \<and> shape_ok (shape d) [Some (nrows y)] \<and>
             outcome (resolve_sigma sg (nrows y)) = Inr sigma
             \<longrightarrow> outcome (NearestRBFInterpolant_init C y d sg k eps ph ord)
                   = Inl ConfigurationError)) \<and>
         (\<not> is_sparse r \<and>
          shape_ok (shape y) [None, None] \<and> shape_ok (shape d) [Some (nrows y)] \<and>
          outcome (resolve_sigma sg (nrows y)) = Inr sigma \<longrightarrow>
            outcome (NearestRBFInterpolant_init C y d sg k eps ph ord)
              = Inr \<lparr>nr_y = y, nr_d = d, nr_sigma = sigma, nr_k = k, nr_eps = eps,
                     nr_phi = r, nr_order = ord, nr_tree = kdtree C y\<rparr> \<and>
            events (NearestRBFInterpolant_init C y d sg k eps ph ord)
              = [Call_get_rbf, Call_KDTree])"
proof (intro conjI impI)
  assume sp: "is_sparse r"
  show "\<exists>e. outcome (NearestRBFInterpolant_init C y d sg k eps ph ord) = Inl e"
    using assms sp
    by (auto simp: NearestRBFInterpolant_init_def outcome_and_then split: sum.splits)
  show "Call_KDTree \<notin> set (events (NearestRBFInterpolant_init C y d sg k eps ph ord))"
    using assms sp
    by (auto simp: NearestRBFInterpolant_init_def events_and_then outcome_and_then
        split: sum.splits)
  assume "shape_ok (shape y) [None, None] \<and> shape_ok (shape d) [Some (nrows y)] \<and>
          outcome (resolve_sigma sg (nrows y)) = Inr sigma"
  then show "outcome (NearestRBFInterpolant_init C y d sg k eps ph ord) = Inl ConfigurationError"
    using sp by (simp add: NearestRBFInterpolant_init_valid [OF _ _ _ assms])
next
  assume h: "\<not> is_sparse r \<and>
          shape_ok (shape y) [None, None] \<and> shape_ok (shape d) [Some (nrows y)] \<and>
          outcome (resolve_sigma sg (nrows y)) = Inr sigma"
  then show "outcome (NearestRBFInterpolant_init C y d sg k eps ph ord)
              = Inr \<lparr>nr_y = y, nr_d = d, nr_sigma = sigma, nr_k = k, nr_eps = eps,
                     nr_phi = r, nr_order = ord, nr_tree = kdtree C y\<rparr>"
    by (simp add: NearestRBFInterpolant_init_valid [OF _ _ _ assms])
  from h show "events (NearestRBFInterpolant_init C y d sg k eps ph ord)
              = [Call_get_rbf, Call_KDTree]"
    by (simp add: NearestRBFInterpolant_init_valid [OF _ _ _ assms])
qed

text \<open>The sparse sample kernel is refused; the dense one gives an interpolant.\<close>

theorem nearest_init_kernel_check_witness:
  "get_rbf sample_collab (Phi_name ''sparse'') = Inr sample_sparse_rbf \<and>
   is_sparse sample_sparse_rbf \<and>
   get_rbf sample_collab (Phi_name ''sqdist'') = Inr sample_rbf \<and>
   \<not> is_sparse sample_rbf \<and>
   shape_ok (shape sample_y) [None, None] \<and>
   shape_ok (shape sample_d) [Some (nrows sample_y)] \<and>
   outcome (resolve_sigma (Sigma_scalar 0) (nrows sample_y)) = Inr [0, 0, 0] \<and>
   outcome (NearestRBFInterpolant_init sample_collab sample_y sample_d (Sigma_scalar 0) 20
              (Eps_scalar 1) (Phi_name ''sparse'') 1) = Inl ConfigurationError \<and>
   Call_KDTree \<notin> set (events (NearestRBFInterpolant_init sample_collab sample_y sample_d
              (Sigma_scalar 0) 20 (Eps_scalar 1) (Phi_name ''sparse'') 1)) \<and>
   events (NearestRBFInterpolant_init sample_collab sample_y sample_d (Sigma_scalar 0) 20
              (Eps_scalar 1) (Phi_name ''sqdist'') 1) = [Call_get_rbf, Call_KDTree]"
proof -
  have sp: "is_sparse sample_sparse_rbf" and ns: "\<not> is_sparse sample_rbf"
    by (simp_all add: sample_sparse_rbf_def sample_rbf_def)
  note a = nearest_init_kernel_check [OF sample_resolved(2), where y = sample_y
      and d = sample_d and sg = "Sigma_scalar 0" and sigma = "[0, 0, 0]" and k = 20
      and eps = "Eps_scalar 1" and ord = 1]
  note b = nearest_init_kernel_check [OF sample_resolved(1), where y = sample_y
      and d = sample_d and sg = "Sigma_scalar 0" and sigma = "[0, 0, 0]" and k = 20
      and eps = "Eps_scalar 1" and ord = 1]
  from a b sp ns sample_shapes sample_sigma_zero sample_resolved show ?thesis by blast
qed

section \<open>Chunk invariance\<close>




section \<open>Extrapolation masking\<close>

lemma hull_inside_line:
  assumes "nrows obs > 1" "flat obs \<noteq> []"
  shows "hull_inside C 1 obs q
           \<longleftrightarrow> Min (set (flat obs)) \<le> q ! 0 \<and> q ! 0 \<le> Max (set (flat obs))"
proof -
  obtain v vs where f: "flat obs = v # vs" using assms(2) by (cases "flat obs") auto
  have "fold min vs v = Min (set (flat obs))" "fold max vs v = Max (set (flat obs))"
    unfolding f by (simp_all only: Min.set_eq_fold Max.set_eq_fold)
  then show ?thesis using assms(1) by (simp add: hull_inside_def f)
qed

text \<open>
  C7, as amended. For a global interpolant with extrapolation disabled, \<open>N\<close>
  observations in \<open>D\<close> dimensions, targets of shape \<open>(P, D)\<close> and chunking disabled
  or a positive chunk size: when evaluation returns \<open>out\<close>, each entry is either the
  sentinel or the value \<open>K a + P b\<close> of its target, which is what evaluation returns
  with extrapolation allowed, and
  \<^item> with fewer than \<open>D + 1\<close> observations every entry is the sentinel;
  \<^item> with \<open>D = 1\<close> and at least two observations, the entry of a target is its value
    when the target lies in the closed interval from the least to the greatest
    observation, and the sentinel otherwise;
  \<^item> with \<open>D \<ge> 2\<close>, more than \<open>D\<close> observations and at least one target, the
    triangulation of the observations was built, and the entry of a target is its value
    when the triangulation finds it in a simplex, and the sentinel otherwise.
  In particular, for the observations 0, 1, 2 on a line and the targets -5, 7, 1 the
  output is the sentinel twice, followed by the value at 1.
\<close>

theorem extrapolation_mask:
  fixes x :: "real ndarray"
  assumes ne: "\<not> gl_extrapolate s"
    and sh: "shape x = [P, D]" and shy: "shape (gl_y s) = [N, D]"
    and cs: "chunk_size = None \<or> (\<exists>c. chunk_size = Some c \<and> 0 < c)"
    and ok: "outcome (RBFInterpolant_call C s x diff chunk_size) = Inr out"
  shows "outcome (RBFInterpolant_call C (s\<lparr>gl_extrapolate := True\<rparr>) x diff chunk_size)
           = Inr (map (gl_value C s diff) (rows x)) \<and>
         length out = P \<and>
         (N < D + 1 \<longrightarrow> (\<forall>i<P. out ! i = NaN)) \<and>
         (D = 1 \<and> 2 \<le> N \<longrightarrow>
            (\<forall>i<P. out ! i =
               (if Min (set (flat (gl_y s))) \<le> rows x ! i ! 0 \<and>
                   rows x ! i ! 0 \<le> Max (set (flat (gl_y s)))
                then gl_value C s diff (rows x ! i) else NaN))) \<and>
         (2 \<le> D \<and> D < N \<and> 0 < P \<longrightarrow>
            (\<exists>find_simplex. delaunay C (rows (gl_y s)) = Inr find_simplex \<and>
               (\<forall>i<P. out ! i =
                  (if 0 \<le> find_simplex (rows x ! i)
                   then gl_value C s diff (rows x ! i) else NaN)))) \<and>
         (gl_y s = sample_y \<and> x = sample_x \<longrightarrow>
            out = [NaN, NaN, gl_value C s diff [1]])"
proof -
  let ?y = "gl_y s"
  let ?raw = "map (gl_value C s diff) (rows x)"
  let ?s' = "s\<lparr>gl_extrapolate := True\<rparr>"
  have D: "ncols ?y = D" and Ny: "nrows ?y = N" using shy by simp_all
  have shD: "shape x = [P, ncols ?y]" using sh D by simp
  have sh': "shape x = [P, ncols (gl_y ?s')]" using shD by simp
  have lenR: "length (rows x) = P" using sh by simp
  have raw: "outcome (RBFInterpolant_call C ?s' x diff chunk_size) = Inr ?raw"
    using RBFInterpolant_call_values [OF sh' cs, of C diff] by simp
  show ?thesis
  proof (cases "hull_ready C D ?y")
    case True
    have out: "out = map (\<lambda>q. if hull_inside C D ?y q then gl_value C s diff q else NaN) (rows x)"
      using RBFInterpolant_call_values [OF shD cs, of C diff] True ne ok by (simp add: D)
    have len: "length out = P" using lenR by (simp add: out)
    have nth: "out ! i = (if hull_inside C D ?y (rows x ! i) then gl_value C s diff (rows x ! i) else NaN)"
      if "i < P" for i
      using that lenR by (simp add: out)
    have few: "\<forall>i<P. out ! i = NaN" if "N < D + 1"
      using that nth Ny by (simp add: hull_inside_def)
    have line: "\<forall>i<P. out ! i =
               (if Min (set (flat ?y)) \<le> rows x ! i ! 0 \<and> rows x ! i ! 0 \<le> Max (set (flat ?y))
                then gl_value C s diff (rows x ! i) else NaN)"
      if h: "D = 1 \<and> 2 \<le> N"
    proof -
      have n1: "nrows ?y > 1" using h Ny by simp
      have "flat ?y \<noteq> []" using True h Ny by (auto simp: hull_ready_def)
      from hull_inside_line [OF n1 this, of C] show ?thesis
        using nth h by simp
    qed
    have tri: "\<exists>find_simplex. delaunay C (rows ?y) = Inr find_simplex \<and>
               (\<forall>i<P. out ! i =
                  (if 0 \<le> find_simplex (rows x ! i)
                   then gl_value C s diff (rows x ! i) else NaN))"
      if h: "2 \<le> D \<and> D < N \<and> 0 < P"
    proof -
      from True h Ny obtain fs where fs: "delaunay C (rows ?y) = Inr fs"
        by (cases "delaunay C (rows ?y)") (auto simp: hull_ready_def)
      have "hull_inside C D ?y q \<longleftrightarrow> 0 \<le> fs q" for q
        using h Ny by (simp add: hull_inside_def fs)
      with nth fs show ?thesis by simp
    qed
    have ex: "out = [NaN, NaN, gl_value C s diff [1]]" if e: "gl_y s = sample_y \<and> x = sample_x"
    proof -
      have P: "P = 3" and D1: "D = 1" and N3: "N = 3"
        using e sh shy by (simp_all add: sample_x_def sample_y_def)
      have r: "rows x = [[- 5], [7], [1]]"
        using e by (simp add: rows_def sample_x_def nrows_def ncols_def upt_rec numeral_3_eq_3)
      have mm: "Min (set (flat ?y)) = 0" "Max (set (flat ?y)) = 2"
        using e by (simp_all add: sample_y_def)
      have "out ! 0 = NaN" "out ! 1 = NaN" "out ! 2 = gl_value C s diff [1]"
        using line P D1 N3 by (simp_all add: r mm)
      with len P show ?thesis
        by (intro nth_equalityI) (auto simp: less_Suc_eq numeral_3_eq_3 numeral_2_eq_2)
    qed
    from raw len few line tri ex show ?thesis by blast
  next
    case False
    from RBFInterpolant_call_not_ready [OF shD cs ne _ ok] False D
    have P: "P = 0" and o: "out = []" by simp_all
    have "gl_y s = sample_y \<and> x = sample_x \<Longrightarrow> False"
      using sh P by (simp add: sample_x_def)
    with raw P o show ?thesis by auto
  qed
qed

text \<open>
  The observations 0, 1, 2 with the targets -5, 7, 1; the single observation 0 with the
  target 0; and the triangle (0, 0), (1, 0), (0, 1) with the targets (1/4, 1/4) and
  (1, 1); all with the default chunk size.
\<close>

theorem extrapolation_mask_witness:
  "\<not> gl_extrapolate sample_global \<and> \<not> gl_extrapolate single_global \<and>
   \<not> gl_extrapolate tri_global \<and>
   shape sample_x = [3, 1] \<and> shape (gl_y sample_global) = [3, 1] \<and>
   shape single_x = [1, 1] \<and> shape (gl_y single_global) = [1, 1] \<and>
   shape tri_x = [2, 2] \<and> shape (gl_y tri_global) = [3, 2] \<and>
   outcome (RBFInterpolant_call sample_collab sample_global sample_x None (Some 1000))
     = Inr [NaN, NaN, Val 4] \<and>
   [NaN, NaN, Val 4] = [NaN, NaN, gl_value sample_collab sample_global None [1]] \<and>
   outcome (RBFInterpolant_call sample_collab single_global single_x None (Some 1000))
     = Inr [NaN] \<and>
   outcome (RBFInterpolant_call sample_collab tri_global tri_x None (Some 1000))
     = Inr [Val (13 / 4), NaN] \<and>
   (\<exists>find_simplex. delaunay sample_collab (rows (gl_y tri_global)) = Inr find_simplex \<and>
      [Val (13 / 4), NaN] ! 0 =
        (if 0 \<le> find_simplex (rows tri_x ! 0)
         then gl_value sample_collab tri_global None (rows tri_x ! 0) else NaN) \<and>
      [Val (13 / 4), NaN] ! 1 =
        (if 0 \<le> find_simplex (rows tri_x ! 1)
         then gl_value sample_collab tri_global None (rows tri_x ! 1) else NaN))"
proof -
  have ne: "\<not> gl_extrapolate sample_global" "\<not> gl_extrapolate single_global"
    "\<not> gl_extrapolate tri_global"
    by (simp_all add: sample_global_def single_global_def tri_global_def)
  have sh: "shape sample_x = [3, 1]" "shape (gl_y sample_global) = [3, 1]"
    "shape single_x = [1, 1]" "shape (gl_y single_global) = [1, 1]"
    "shape tri_x = [2, 2]" "shape (gl_y tri_global) = [3, 2]"
    by (simp_all add: sample_x_def sample_global_def sample_y_def single_x_def
          single_global_def single_y_def tri_x_def tri_global_def tri_y_def)
  have cs: "Some (1000::int) = None \<or> (\<exists>c. Some (1000::int) = Some c \<and> 0 < c)" by simp
  have ok1: "outcome (RBFInterpolant_call sample_collab sample_global sample_x None (Some 1000))
     = Inr [NaN, NaN, Val 4]"
    by code_simp
  have ok2: "outcome (RBFInterpolant_call sample_collab single_global single_x None (Some 1000))
     = Inr [NaN]"
    by code_simp
  have ok3: "outcome (RBFInterpolant_call sample_collab tri_global tri_x None (Some 1000))
     = Inr [Val (13 / 4), NaN]"
    by code_simp
  have y: "gl_y sample_global = sample_y" by (simp add: sample_global_def)
  from extrapolation_mask [OF ne(1) sh(1) sh(2) cs ok1] y
  have a: "[NaN, NaN, Val 4] = [NaN, NaN, gl_value sample_collab sample_global None [1]]"
    by blast
  have d: "(2::nat) \<le> 2 \<and> (2::nat) < 3 \<and> (0::nat) < 2" by simp
  from extrapolation_mask [OF ne(3) sh(5) sh(6) cs ok3] d
  obtain fs where fs: "delaunay sample_collab (rows (gl_y tri_global)) = Inr fs"
    and e: "\<forall>i<2. [Val (13 / 4), NaN] ! i =
       (if 0 \<le> fs (rows tri_x ! i) then gl_value sample_collab tri_global None (rows tri_x ! i)
        else NaN)"
    by blast
  have l: "(0::nat) < 2" "(1::nat) < 2" by simp_all
  have e0: "[Val (13 / 4), NaN] ! 0 =
       (if 0 \<le> fs (rows tri_x ! 0) then gl_value sample_collab tri_global None (rows tri_x ! 0)
        else NaN)"
    by (rule e [rule_format, OF l(1)])
  have e1: "[Val (13 / 4), NaN] ! 1 =
       (if 0 \<le> fs (rows tri_x ! 1) then gl_value sample_collab tri_global None (rows tri_x ! 1)
        else NaN)"
    by (rule e [rule_format, OF l(2)])
  from ne sh ok1 ok2 ok3 a fs e0 e1 show ?thesis by blast
qed

text \<open>
  The claim as stated fails for fewer than \<open>D + 1\<close> observations. The sample
  collaborators construct the global interpolant of order 0 from the single observation
  0; the target 0 is that observation, so it lies in the convex hull of the
  observations (the interval from 0 to 0), and its entry is overwritten all the same.
\<close>

theorem extrapolation_mask_counterexample:
  "outcome (RBFInterpolant_init sample_collab single_y single_d (Sigma_scalar 0) (Eps_scalar 1)
              (Phi_name ''sqdist'') 0 False) = Inr single_global \<and>
   flat single_x = flat single_y \<and>
   Min (set (flat single_y)) \<le> flat single_x ! 0 \<and>
   flat single_x ! 0 \<le> Max (set (flat single_y)) \<and>
   outcome (RBFInterpolant_call sample_collab single_global single_x None (Some 1000))
     = Inr [NaN]"
proof -
  have i: "outcome (RBFInterpolant_init sample_collab single_y single_d (Sigma_scalar 0)
              (Eps_scalar 1) (Phi_name ''sqdist'') 0 False) = Inr single_global"
  proof -
    have p: "powers sample_collab 0 (Suc 0) = [[0]]" by code_simp
    have r: "rows single_y = [[0]]" by code_simp
    have g: "get_rbf sample_collab (Phi_name ''sqdist'') = Inr sample_rbf"
      by (simp add: sample_collab_def sample_get_rbf_def)
    have s: "partitioned_solve sample_collab = (\<lambda>K P d z. Inr (map Val d, z))"
      by (simp add: sample_collab_def)
    have n: "nrows single_y = 1" "ncols single_y = Suc 0" "shape single_y = [1, 1]"
      "shape single_d = [1]" "flat single_d = [5]"
      by (simp_all add: single_y_def single_d_def nrows_def ncols_def)
    show ?thesis
      by (simp add: RBFInterpolant_init_def outcome_and_then resolve_sigma_def shape_ok_def
            n g p r s single_global_def)
  qed
  have f: "flat single_x = flat single_y" by (simp add: single_x_def single_y_def)
  have m: "Min (set (flat single_y)) \<le> flat single_x ! 0"
    "flat single_x ! 0 \<le> Max (set (flat single_y))"
    by (simp_all add: single_x_def single_y_def)
  have c: "outcome (RBFInterpolant_call sample_collab single_global single_x None (Some 1000))
     = Inr [NaN]"
    by code_simp
  from i f m c show ?thesis by blast
qed

section \<open>An empty target set\<close>

text \<open>
  C9. With chunking enabled and a positive chunk size, evaluating a target array of
  shape \<open>(0, D)\<close> returns the empty output for both interpolant types, raises nothing
  and calls no collaborator; this holds for every local interpolant, also one whose
  monomial count exceeds \<open>k\<close>.
\<close>

theorem empty_targets:
  fixes x :: "real ndarray"
  assumes "0 < c"
  shows "(shape x = [0, ncols (gl_y g)] \<longrightarrow> RBFInterpolant_call C g x diff (Some c) = ret []) \<and>
         (shape x = [0, ncols (nr_y s)] \<longrightarrow> NearestRBFInterpolant_call C s x diff (Some c) = ret [])"
  using assms
  by (auto simp: RBFInterpolant_call_def NearestRBFInterpolant_call_def assert_shape_def
        chunked_def checked_range_def py_range_done)

text \<open>The default chunk sizes, 1000 and 100; the local interpolant has \<open>M > k\<close>.\<close>

theorem empty_targets_witness:
  "shape empty_x = [0, ncols (gl_y sample_global)] \<and>
   RBFInterpolant_call sample_collab sample_global empty_x None (Some 1000) = ret [] \<and>
   shape empty_x = [0, ncols (nr_y sample_nearest_small)] \<and>
   nr_k sample_nearest_small
     < int (length (powers sample_collab (nr_order sample_nearest_small)
                      (ncols (nr_y sample_nearest_small)))) \<and>
   NearestRBFInterpolant_call sample_collab sample_nearest_small empty_x None (Some 100) = ret []"
proof -
  have sg: "shape empty_x = [0, ncols (gl_y sample_global)]"
    by (simp add: empty_x_def sample_global_def sample_y_def ncols_def)
  have sn: "shape empty_x = [0, ncols (nr_y sample_nearest_small)]"
    by (simp add: empty_x_def sample_nearest_small_def sample_y_def ncols_def)
  have small: "nr_k sample_nearest_small
     < int (length (powers sample_collab (nr_order sample_nearest_small)
                      (ncols (nr_y sample_nearest_small))))"
    by code_simp
  have a: "(0::int) < 1000" and b: "(0::int) < 100" by simp_all
  from empty_targets [OF a, where x = empty_x and g = sample_global and C = sample_collab
         and diff = None] sg
  have g: "RBFInterpolant_call sample_collab sample_global empty_x None (Some 1000) = ret []"
    by blast
  from empty_targets [OF b, where x = empty_x and s = sample_nearest_small
         and C = sample_collab and diff = None] sn
  have n: "NearestRBFInterpolant_call sample_collab sample_nearest_small empty_x None (Some 100)
             = ret []"
    by blast
  from sg sn small g n show ?thesis by blast
qed

section \<open>A negative chunk size\<close>

text \<open>
  C10. With a negative chunk size, evaluating a target array of shape \<open>(P, D)\<close>
  returns \<open>P\<close> zeros for both interpolant types, and the call log is empty: neither
  the kernel nor the polynomial basis, nor any other collaborator, is called.
\<close>

theorem negative_chunk_size:
  fixes x :: "real ndarray"
  assumes "c < 0"
  shows "(shape x = [P, ncols (gl_y g)] \<longrightarrow>
            RBFInterpolant_call C g x diff (Some c) = ret (replicate P (Val 0))) \<and>
         (shape x = [P, ncols (nr_y s)] \<longrightarrow>
            NearestRBFInterpolant_call C s x diff (Some c) = ret (replicate P (Val 0)))"
  using assms
  by (auto simp: RBFInterpolant_call_def NearestRBFInterpolant_call_def assert_shape_def
        chunked_def checked_range_def py_range_negative)

text \<open>Three targets, chunk size -3.\<close>

theorem negative_chunk_size_witness:
  "shape sample_x = [3, ncols (gl_y sample_global)] \<and>
   RBFInterpolant_call sample_collab sample_global sample_x None (Some (- 3))
     = ([], Inr [Val 0, Val 0, Val 0]) \<and>
   shape sample_x = [3, ncols (nr_y sample_nearest)] \<and>
   NearestRBFInterpolant_call sample_collab sample_nearest sample_x None (Some (- 3))
     = ([], Inr [Val 0, Val 0, Val 0])"
proof -
  have sg: "shape sample_x = [3, ncols (gl_y sample_global)]"
    by (simp add: sample_x_def sample_global_def sample_y_def ncols_def)
  have sn: "shape sample_x = [3, ncols (nr_y sample_nearest)]"
    by (simp add: sample_x_def sample_nearest_def sample_y_def ncols_def)
  have c: "(- 3 :: int) < 0" by simp
  have z: "ret (replicate 3 (Val 0)) = (([] :: event list), (Inr [Val 0, Val 0, Val 0] :: error + pyfloat list))"
    by (simp add: ret_def numeral_3_eq_3)
  from negative_chunk_size [OF c, where x = sample_x and P = 3 and g = sample_global
         and C = sample_collab and diff = None] sg z
  have g: "RBFInterpolant_call sample_collab sample_global sample_x None (Some (- 3))
     = ([], Inr [Val 0, Val 0, Val 0])"
    by simp
  from negative_chunk_size [OF c, where x = sample_x and P = 3 and s = sample_nearest
         and C = sample_collab and diff = None] sn z
  have n: "NearestRBFInterpolant_call sample_collab sample_nearest sample_x None (Some (- 3))
     = ([], Inr [Val 0, Val 0, Val 0])"
    by simp
  from sg sn g n show ?thesis by blast
qed

section \<open>Evaluation leaves the existing objects alone\<close>

lemma frame_refl [simp]: "frame h h"
  by (simp add: frame_def)

lemma frame_trans: "frame h0 h1 \<Longrightarrow> frame h1 h2 \<Longrightarrow> frame h0 h2"
  by (auto simp: frame_def)

lemma frame_alloc: "alloc h c = (h1, a) \<Longrightarrow> frame h h1 \<and> a = length h \<and> length h1 = Suc (length h)"
  by (auto simp: alloc_def frame_def nth_append)

lemma frame_store_at: "frame h0 h \<Longrightarrow> length h0 \<le> a \<Longrightarrow> frame h0 (store_at h a c)"
  by (auto simp: frame_def store_at_def)

lemma frame_on_ok:
  assumes "frame h0 h" and "\<And>v. r = Inr v \<Longrightarrow> frame h0 (fst (k v))"
  shows "frame h0 (fst (on_ok r h k))"
  using assms by (cases r) (simp_all add: on_ok_def)

lemma frame_st_RBFInterpolant_batch:
  "frame h (fst (st_RBFInterpolant_batch C h self x diff))"
  unfolding st_RBFInterpolant_batch_def
proof (intro frame_on_ok frame_refl)
  fix s xv yv phi_coeff pwr poly_coeff
  let ?K = "kernel_matrix (the_phi s) (the_eps s) diff (rows xv) (rows yv)"
  let ?P = "mvmonos C diff (rows xv) pwr"
  let ?c = "Float_vector (map2 fadd (map (\<lambda>r. fdot r phi_coeff) ?K) (map (\<lambda>r. fdot r poly_coeff) ?P))"
  obtain h1 out where a: "alloc h ?c = (h1, out)" by (cases "alloc h ?c")
  from frame_alloc [OF a] have f: "frame h h1" and o: "out = length h" by simp_all
  have "frame h (fst (if \<not> the_extrapolate s then
          on_ok (outcome (in_hull C xv yv)) h1 (\<lambda>inside.
          on_ok (load_floats h1 out) h1 (\<lambda>v.
          (store_at h1 out (Float_vector (mask_outside v inside)), Inr out)))
        else (h1, Inr out)))"
    using f o by (auto intro!: frame_on_ok frame_store_at)
  then show "frame h (fst (let K = ?K; P = ?P;
         (h1, out) = alloc h (Float_vector (map2 fadd (map (\<lambda>r. fdot r phi_coeff) K)
                                                (map (\<lambda>r. fdot r poly_coeff) P)))
     in if \<not> the_extrapolate s then
          on_ok (outcome (in_hull C xv yv)) h1 (\<lambda>inside.
          on_ok (load_floats h1 out) h1 (\<lambda>v.
          (store_at h1 out (Float_vector (mask_outside v inside)), Inr out)))
        else (h1, Inr out)))"
    by (simp only: Let_def a split_conv)
qed

lemma frame_append: "frame h0 h \<Longrightarrow> frame h0 (h @ xs)"
  by (auto simp: frame_def nth_append)

lemma frame_length: "frame h0 h \<Longrightarrow> length h0 \<le> length h"
  by (simp add: frame_def)

lemma frame_st_NearestRBFInterpolant_batch:
  "frame h (fst (st_NearestRBFInterpolant_batch C h self x diff))"
  unfolding st_NearestRBFInterpolant_batch_def Let_def alloc_def split_conv
  by (intro frame_on_ok frame_refl)
     (auto intro!: frame_on_ok frame_store_at frame_append)

lemma frame_st_chunk_loop:
  assumes f: "\<And>h x. frame h (fst (f h x))"
  shows "frame h0 h \<Longrightarrow> length h0 \<le> out \<Longrightarrow> frame h0 (fst (st_chunk_loop f h x c starts out))"
proof (induction starts arbitrary: h)
  case Nil
  then show ?case by simp
next
  case (Cons start rest)
  obtain h1 r where fr: "f h (sub_view x start (start + c)) = (h1, r)"
    by (cases "f h (sub_view x start (start + c))")
  have "frame h h1" using f [of h "sub_view x start (start + c)"] by (simp add: fr)
  with Cons.prems(1) have h1: "frame h0 h1" by (rule frame_trans)
  show ?case
  proof (cases r)
    case (Inl e)
    then show ?thesis using h1 by (simp add: fr)
  next
    case (Inr res)
    have "frame h0 (fst (on_ok (load_floats h1 res) h1 (\<lambda>v.
          on_ok (load_floats h1 out) h1 (\<lambda>old.
          on_ok (outcome (assign_slice old start (start + c) v)) h1 (\<lambda>new.
          st_chunk_loop f (store_at h1 out (Float_vector new)) x c rest out)))))"
      using h1 Cons.prems(2)
      by (intro frame_on_ok Cons.IH frame_store_at)
    then show ?thesis by (simp add: fr Inr)
  qed
qed

lemma frame_st_chunked:
  assumes f: "\<And>h x. frame h (fst (f h x))"
  shows "frame h (fst (st_chunked f h x n c))"
  unfolding st_chunked_def alloc_def split_conv Let_def
  by (intro frame_on_ok frame_st_chunk_loop f frame_append frame_refl) simp

lemma frame_st_RBFInterpolant_call_None:
  "frame h (fst (st_RBFInterpolant_call_None C h self x diff))"
  unfolding st_RBFInterpolant_call_None_def
  by (intro frame_on_ok frame_refl frame_st_RBFInterpolant_batch)

lemma frame_st_NearestRBFInterpolant_call_None:
  "frame h (fst (st_NearestRBFInterpolant_call_None C h self x diff))"
  unfolding st_NearestRBFInterpolant_call_None_def
  by (intro frame_on_ok frame_refl frame_st_NearestRBFInterpolant_batch)

lemma frame_st_RBFInterpolant_call:
  "frame h (fst (st_RBFInterpolant_call C h self x diff chunk_size))"
  unfolding st_RBFInterpolant_call_def
  by (cases chunk_size)
     (auto intro!: frame_on_ok frame_st_RBFInterpolant_batch frame_st_chunked
        frame_st_RBFInterpolant_call_None)

lemma frame_st_NearestRBFInterpolant_call:
  "frame h (fst (st_NearestRBFInterpolant_call C h self x diff chunk_size))"
  unfolding st_NearestRBFInterpolant_call_def
  by (cases chunk_size)
     (auto intro!: frame_on_ok frame_st_NearestRBFInterpolant_batch frame_st_chunked
        frame_st_NearestRBFInterpolant_call_None)

lemma load_frame: "frame h h' \<Longrightarrow> load h a = Inr c \<Longrightarrow> load h' a = Inr c"
  by (auto simp: frame_def load_def split: if_splits)

lemma load_reals_frame: "frame h h' \<Longrightarrow> load_reals h v = Inr a \<Longrightarrow> load_reals h' v = Inr a"
proof -
  assume f: "frame h h'" and l: "load_reals h v = Inr a"
  from l obtain c where c: "load h (base v) = Inr c"
    by (cases "load h (base v)") (simp_all add: load_reals_def)
  from load_frame [OF f c] have "load h' (base v) = load h (base v)" by (simp add: c)
  then show ?thesis using l by (simp add: load_reals_def)
qed

lemma load_reals1_frame: "frame h h' \<Longrightarrow> load_reals1 h v = Inr a \<Longrightarrow> load_reals1 h' v = Inr a"
proof -
  assume f: "frame h h'" and l: "load_reals1 h v = Inr a"
  from l obtain c where c: "load h (v) = Inr c"
    by (cases "load h (v)") (simp_all add: load_reals1_def)
  from load_frame [OF f c] have "load h' (v) = load h (v)" by (simp add: c)
  then show ?thesis using l by (simp add: load_reals1_def)
qed

lemma load_floats_frame: "frame h h' \<Longrightarrow> load_floats h v = Inr a \<Longrightarrow> load_floats h' v = Inr a"
proof -
  assume f: "frame h h'" and l: "load_floats h v = Inr a"
  from l obtain c where c: "load h (v) = Inr c"
    by (cases "load h (v)") (simp_all add: load_floats_def)
  from load_frame [OF f c] have "load h' (v) = load h (v)" by (simp add: c)
  then show ?thesis using l by (simp add: load_floats_def)
qed

lemma load_exponents_frame: "frame h h' \<Longrightarrow> load_exponents h v = Inr a \<Longrightarrow> load_exponents h' v = Inr a"
proof -
  assume f: "frame h h'" and l: "load_exponents h v = Inr a"
  from l obtain c where c: "load h (v) = Inr c"
    by (cases "load h (v)") (simp_all add: load_exponents_def)
  from load_frame [OF f c] have "load h' (v) = load h (v)" by (simp add: c)
  then show ?thesis using l by (simp add: load_exponents_def)
qed

lemma load_tree_frame: "frame h h' \<Longrightarrow> load_tree h v = Inr a \<Longrightarrow> load_tree h' v = Inr a"
proof -
  assume f: "frame h h'" and l: "load_tree h v = Inr a"
  from l obtain c where c: "load h (v) = Inr c"
    by (cases "load h (v)") (simp_all add: load_tree_def)
  from load_frame [OF f c] have "load h' (v) = load h (v)" by (simp add: c)
  then show ?thesis using l by (simp add: load_tree_def)
qed

lemma load_global_frame: "frame h h' \<Longrightarrow> load_global h v = Inr a \<Longrightarrow> load_global h' v = Inr a"
proof -
  assume f: "frame h h'" and l: "load_global h v = Inr a"
  from l obtain c where c: "load h (v) = Inr c"
    by (cases "load h (v)") (simp_all add: load_global_def)
  from load_frame [OF f c] have "load h' (v) = load h (v)" by (simp add: c)
  then show ?thesis using l by (simp add: load_global_def)
qed

lemma load_nearest_frame: "frame h h' \<Longrightarrow> load_nearest h v = Inr a \<Longrightarrow> load_nearest h' v = Inr a"
proof -
  assume f: "frame h h'" and l: "load_nearest h v = Inr a"
  from l obtain c where c: "load h (v) = Inr c"
    by (cases "load h (v)") (simp_all add: load_nearest_def)
  from load_frame [OF f c] have "load h' (v) = load h (v)" by (simp add: c)
  then show ?thesis using l by (simp add: load_nearest_def)
qed

lemma holds_global_frame: "frame h h' \<Longrightarrow> holds_global h self g \<Longrightarrow> holds_global h' self g"
  unfolding holds_global_def
  by (elim exE conjE, intro exI conjI)
     (erule (1) load_global_frame load_reals_frame load_floats_frame load_exponents_frame
        | assumption)+

lemma holds_nearest_frame: "frame h h' \<Longrightarrow> holds_nearest h self n \<Longrightarrow> holds_nearest h' self n"
  unfolding holds_nearest_def
  by (elim exE conjE, intro exI conjI)
     (erule (1) load_nearest_frame load_reals_frame load_reals1_frame load_tree_frame
        | assumption)+

lemma load_reals_sub_view:
  assumes "load_reals h x = Inr xv"
  shows "load_reals h (sub_view x start stop) = Inr (slice_rows xv start stop)"
proof -
  from assms obtain c where c: "load h (base x) = Inr c"
    by (cases "load h (base x)") (simp_all add: load_reals_def)
  from assms c obtain a where a: "c = Real_array a"
    by (cases c) (simp_all add: load_reals_def)
  show ?thesis using assms by (simp add: load_reals_def sub_view_def c a)
qed

lemma load_floats_alloc [simp]: "load_floats (h @ [Float_vector v]) (length h) = Inr v"
  by (simp add: load_floats_def load_def)

lemma load_floats_store_at:
  "a < length h \<Longrightarrow> load_floats (store_at h a (Float_vector v)) a = Inr v"
  by (simp add: load_floats_def load_def store_at_def)

lemma load_floats_in_range: "load_floats h a = Inr v \<Longrightarrow> a < length h"
  by (auto simp: load_floats_def load_def split: if_splits)

lemma on_ok_Inr [simp]: "on_ok (Inr v) h k = k v"
  by (simp add: on_ok_def)

lemma on_ok_Inl [simp]: "on_ok (Inl e) h k = (h, Inl e)"
  by (simp add: on_ok_def)

lemma agrees_Inl [simp]: "agrees (h, r) (Inl e) \<longleftrightarrow> r = Inl e"
  by (simp add: agrees_def)

lemma agrees_Inr [simp]: "agrees (h, Inr a) (Inr out) \<longleftrightarrow> load_floats h a = Inr out"
  by (simp add: agrees_def)

lemma st_RBFInterpolant_batch_agrees:
  assumes g: "holds_global h self g" and x: "load_reals h x = Inr xv"
  shows "agrees (st_RBFInterpolant_batch C h self x diff)
                (outcome (RBFInterpolant_batch C g xv diff))"
proof -
  from g obtain s where s: "load_global h self = Inr s"
      "load_reals h (whole (at_y s)) = Inr (gl_y g)"
      "the_phi s = gl_phi g" "the_eps s = gl_eps g"
      "load_floats h (at_phi_coeff s) = Inr (gl_phi_coeff g)"
      "load_floats h (at_poly_coeff s) = Inr (gl_poly_coeff g)"
      "load_exponents h (at_pwr s) = Inr (gl_pwr g)"
      "the_extrapolate s = gl_extrapolate g"
    unfolding holds_global_def by blast
  let ?raw = "map (gl_value C g diff) (rows xv)"
  have st: "st_RBFInterpolant_batch C h self x diff =
      (if \<not> gl_extrapolate g then
          on_ok (outcome (in_hull C xv (gl_y g))) (h @ [Float_vector ?raw]) (\<lambda>inside.
          (store_at (h @ [Float_vector ?raw]) (length h) (Float_vector (mask_outside ?raw inside)),
           Inr (length h)))
        else (h @ [Float_vector ?raw], Inr (length h)))"
    by (simp add: st_RBFInterpolant_batch_def s x alloc_def gl_raw_values Let_def)
  show ?thesis
  proof (cases "gl_extrapolate g")
    case True
    then show ?thesis by (simp add: st RBFInterpolant_batch_values)
  next
    case False
    show ?thesis
    proof (cases "outcome (in_hull C xv (gl_y g))")
      case (Inl e)
      then show ?thesis using False by (simp add: st RBFInterpolant_batch_values)
    next
      case (Inr inside)
      then show ?thesis using False
        by (simp add: st RBFInterpolant_batch_values load_floats_store_at)
    qed
  qed
qed

lemma load_kernels_alloc [simp]: "load_kernels (h @ [Matrix_batch v]) (length h) = Inr v"
  by (simp add: load_kernels_def load_def)

lemma load_kernels_store_at [simp]:
  "load_kernels (store_at (h @ [c]) (length h) (Matrix_batch v)) (length h) = Inr v"
  by (simp add: load_kernels_def load_def store_at_def)

lemma frame_alloc_store: "frame h (store_at (h @ [c]) (length h) c')"
  by (intro frame_store_at frame_append) simp_all

lemma load_reals1_alloc:
  "load_reals1 h a = Inr v \<Longrightarrow> load_reals1 (h @ [c]) a = Inr v"
  by (rule load_reals1_frame [OF frame_append]) simp_all

lemma load_reals1_alloc_store:
  "load_reals1 h a = Inr v \<Longrightarrow> load_reals1 (store_at (h @ [c]) (length h) c') a = Inr v"
  by (rule load_reals1_frame [OF frame_alloc_store])

lemma st_NearestRBFInterpolant_batch_agrees:
  assumes n: "holds_nearest h self n" and x: "load_reals h x = Inr xv"
  shows "agrees (st_NearestRBFInterpolant_batch C h self x diff)
                (outcome (NearestRBFInterpolant_batch C n xv diff))"
proof -
  from n obtain s where s: "load_nearest h self = Inr s"
      "load_reals h (whole (nat_y s)) = Inr (nr_y n)"
      "load_reals1 h (nat_d s) = Inr (flat (nr_d n))"
      "load_reals1 h (nat_sigma s) = Inr (nr_sigma n)"
      "nthe_k s = nr_k n" "nthe_eps s = nr_eps n" "nthe_phi s = nr_phi n"
      "nthe_order s = nr_order n"
      "load_tree h (nat_tree s) = Inr (nr_tree n)"
    unfolding holds_nearest_def by blast
  note l = load_reals1_alloc [OF s(4)] load_reals1_alloc_store [OF s(3)]
  show ?thesis
  proof (cases "nr_k n < int (length (powers C (nr_order n) (ncols (nr_y n))))")
    case True
    then show ?thesis
      by (simp add: st_NearestRBFInterpolant_batch_def s x nr_batch_insufficient)
  next
    case False
    let ?nbr = "map (\<lambda>p. map (tree_query C (nr_tree n) p (nr_k n)) [0..<nat (nr_k n)]) (rows xv)"
    show ?thesis
    proof (cases "outcome (fancy_index (rows (nr_y n)) ?nbr)")
      case (Inl e)
      then show ?thesis using False
        by (simp add: st_NearestRBFInterpolant_batch_def NearestRBFInterpolant_batch_def
              s x outcome_and_then Let_def)
    next
      case y: (Inr ynbr)
      show ?thesis
      proof (cases "outcome (fancy_index (nr_sigma n) ?nbr)")
        case (Inl e)
        then show ?thesis using False y
          by (simp add: st_NearestRBFInterpolant_batch_def NearestRBFInterpolant_batch_def
                s x l outcome_and_then Let_def alloc_def)
      next
        case sg: (Inr snbr)
        show ?thesis
        proof (cases "outcome (fancy_index (flat (nr_d n)) ?nbr)")
          case (Inl e)
          then show ?thesis using False y sg
            by (simp add: st_NearestRBFInterpolant_batch_def NearestRBFInterpolant_batch_def
                  s x l outcome_and_then Let_def alloc_def)
        next
          case d: (Inr dnbr)
          then show ?thesis using False y sg
            by (simp add: st_NearestRBFInterpolant_batch_def NearestRBFInterpolant_batch_def
                  s x l outcome_and_then Let_def alloc_def split: sum.splits)
        qed
      qed
    qed
  qed
qed

lemma st_chunk_loop_agrees:
  assumes Ff: "\<And>h v. frame h (fst (fs h v))"
    and F: "\<And>h v xcv. frame h0 h \<Longrightarrow> load_reals h v = Inr xcv \<Longrightarrow> agrees (fs h v) (outcome (f xcv))"
    and xr: "load_reals h0 x = Inr xv"
  shows "frame h0 h \<Longrightarrow> length h0 \<le> out \<Longrightarrow> load_floats h out = Inr cur \<Longrightarrow>
     agrees (st_chunk_loop fs h x c starts out) (outcome (chunk_loop f xv c starts cur))"
proof (induction starts arbitrary: h cur)
  case Nil
  then show ?case by simp
next
  case (Cons start rest)
  let ?v = "sub_view x start (start + c)"
  let ?xc = "slice_rows xv start (start + c)"
  have lx: "load_reals h ?v = Inr ?xc"
    by (rule load_reals_sub_view) (rule load_reals_frame [OF Cons.prems(1) xr])
  obtain h1 r where fr: "fs h ?v = (h1, r)" by (cases "fs h ?v")
  have f1: "frame h h1" using Ff [of h ?v] by (simp add: fr)
  have f01: "frame h0 h1" using Cons.prems(1) f1 by (rule frame_trans)
  have ag: "agrees (h1, r) (outcome (f ?xc))"
    using F [OF Cons.prems(1) lx] by (simp add: fr)
  have cur1: "load_floats h1 out = Inr cur"
    by (rule load_floats_frame [OF f1 Cons.prems(3)])
  show ?case
  proof (cases "outcome (f ?xc)")
    case (Inl e)
    then show ?thesis using ag
      by (simp add: fr outcome_chunk_loop_Cons)
  next
    case (Inr v)
    with ag obtain a where r: "r = Inr a" and la: "load_floats h1 a = Inr v"
      by (cases r) (simp_all add: agrees_def)
    show ?thesis
    proof (cases "outcome (assign_slice cur start (start + c) v)")
      case (Inl e)
      then show ?thesis
        by (simp add: fr r la cur1 Inr outcome_chunk_loop_Cons)
    next
      case new: (Inr new)
      let ?h2 = "store_at h1 out (Float_vector new)"
      have f2: "frame h0 ?h2" using f01 Cons.prems(2) by (rule frame_store_at)
      have l2: "load_floats ?h2 out = Inr new"
        using load_floats_in_range [OF cur1] by (rule load_floats_store_at)
      from Cons.IH [OF f2 Cons.prems(2) l2] show ?thesis
        by (simp add: fr r la cur1 Inr new outcome_chunk_loop_Cons)
    qed
  qed
qed

lemma st_chunked_agrees:
  assumes Ff: "\<And>h v. frame h (fst (fs h v))"
    and F: "\<And>h' v xcv. frame h h' \<Longrightarrow> load_reals h' v = Inr xcv \<Longrightarrow> agrees (fs h' v) (outcome (f xcv))"
    and xr: "load_reals h x = Inr xv"
  shows "agrees (st_chunked fs h x (nrows xv) c) (outcome (chunked f xv c))"
proof (cases "c = 0")
  case True
  then show ?thesis
    by (simp add: st_chunked_def chunked_def checked_range_def alloc_def)
next
  case False
  have "agrees (st_chunk_loop fs (h @ [Float_vector (replicate (nrows xv) (Val 0))]) x c
                  (py_range 0 (int (nrows xv)) c) (length h))
               (outcome (chunk_loop f xv c (py_range 0 (int (nrows xv)) c)
                  (replicate (nrows xv) (Val 0))))"
    by (rule st_chunk_loop_agrees [OF Ff F xr]) (simp_all add: frame_append)
  then show ?thesis using False
    by (simp add: st_chunked_def alloc_def checked_range_def outcome_chunked)
qed

lemma st_RBFInterpolant_call_None_agrees:
  assumes g: "holds_global h self g" and x: "load_reals h x = Inr xv"
  shows "agrees (st_RBFInterpolant_call_None C h self x diff)
                (outcome (RBFInterpolant_call_None C g xv diff))"
proof -
  from g obtain s where s: "load_global h self = Inr s"
      "load_reals h (whole (at_y s)) = Inr (gl_y g)"
    unfolding holds_global_def by blast
  show ?thesis
    using st_RBFInterpolant_batch_agrees [OF g x, of C diff]
    by (simp add: st_RBFInterpolant_call_None_def RBFInterpolant_call_None_def s x
          outcome_and_then)
qed

lemma st_NearestRBFInterpolant_call_None_agrees:
  assumes n: "holds_nearest h self n" and x: "load_reals h x = Inr xv"
  shows "agrees (st_NearestRBFInterpolant_call_None C h self x diff)
                (outcome (NearestRBFInterpolant_call_None C n xv diff))"
proof -
  from n obtain s where s: "load_nearest h self = Inr s"
      "load_reals h (whole (nat_y s)) = Inr (nr_y n)"
    unfolding holds_nearest_def by blast
  show ?thesis
    using st_NearestRBFInterpolant_batch_agrees [OF n x, of C diff]
    by (simp add: st_NearestRBFInterpolant_call_None_def NearestRBFInterpolant_call_None_def s x
          outcome_and_then)
qed

lemma st_RBFInterpolant_call_agrees:
  assumes g: "holds_global h self g" and x: "load_reals h x = Inr xv"
  shows "agrees (st_RBFInterpolant_call C h self x diff chunk_size)
                (outcome (RBFInterpolant_call C g xv diff chunk_size))"
proof -
  from g obtain s where s: "load_global h self = Inr s"
      "load_reals h (whole (at_y s)) = Inr (gl_y g)"
    unfolding holds_global_def by blast
  show ?thesis
  proof (cases chunk_size)
    case None
    then show ?thesis
      using st_RBFInterpolant_batch_agrees [OF g x, of C diff]
      by (simp add: st_RBFInterpolant_call_def RBFInterpolant_call_def s x outcome_and_then)
  next
    case (Some c)
    have "agrees (st_chunked (\<lambda>h' xc. st_RBFInterpolant_call_None C h' self xc diff) h x (nrows xv) c)
                 (outcome (chunked (\<lambda>xc. RBFInterpolant_call_None C g xc diff) xv c))"
      by (rule st_chunked_agrees [OF frame_st_RBFInterpolant_call_None _ x])
         (rule st_RBFInterpolant_call_None_agrees [OF holds_global_frame [OF _ g]])
    then show ?thesis
      by (simp add: st_RBFInterpolant_call_def RBFInterpolant_call_def s x outcome_and_then Some)
  qed
qed

lemma st_NearestRBFInterpolant_call_agrees:
  assumes n: "holds_nearest h self n" and x: "load_reals h x = Inr xv"
  shows "agrees (st_NearestRBFInterpolant_call C h self x diff chunk_size)
                (outcome (NearestRBFInterpolant_call C n xv diff chunk_size))"
proof -
  from n obtain s where s: "load_nearest h self = Inr s"
      "load_reals h (whole (nat_y s)) = Inr (nr_y n)"
    unfolding holds_nearest_def by blast
  show ?thesis
  proof (cases chunk_size)
    case None
    then show ?thesis
      using st_NearestRBFInterpolant_batch_agrees [OF n x, of C diff]
      by (simp add: st_NearestRBFInterpolant_call_def NearestRBFInterpolant_call_def s x
            outcome_and_then)
  next
    case (Some c)
    have "agrees (st_chunked (\<lambda>h' xc. st_NearestRBFInterpolant_call_None C h' self xc diff) h x
                    (nrows xv) c)
                 (outcome (chunked (\<lambda>xc. NearestRBFInterpolant_call_None C n xc diff) xv c))"
      by (rule st_chunked_agrees [OF frame_st_NearestRBFInterpolant_call_None _ x])
         (rule st_NearestRBFInterpolant_call_None_agrees [OF holds_nearest_frame [OF _ n]])
    then show ?thesis
      by (simp add: st_NearestRBFInterpolant_call_def NearestRBFInterpolant_call_def s x
            outcome_and_then Some)
  qed
qed


text \<open>
  C8. On the explicit store, for both interpolant types and every evaluation call
  (whatever the store, the arguments and the outcome): the store after the call
  extends the store before it, and every object that existed before the call is
  unchanged, so the call writes only to arrays it has created itself. When the store
  holds an interpolant at \<open>self\<close>, it holds the same interpolant after the call (the
  object, and the observation points, observed values, coefficient vectors, exponent
  set, smoothing vector, spatial index, kernel and flags that its attributes refer
  to), and the call returns what the evaluation on values returns: the same error, or
  the address of an array with the same output.
\<close>

theorem evaluation_frame:
  "(length h \<le> length (fst (st_RBFInterpolant_call C h self x diff chunk_size)) \<and>
    (\<forall>a<length h. fst (st_RBFInterpolant_call C h self x diff chunk_size) ! a = h ! a) \<and>
    (holds_global h self g \<and> load_reals h x = Inr xv \<longrightarrow>
       holds_global (fst (st_RBFInterpolant_call C h self x diff chunk_size)) self g \<and>
       agrees (st_RBFInterpolant_call C h self x diff chunk_size)
              (outcome (RBFInterpolant_call C g xv diff chunk_size)))) \<and>
   (length hn \<le> length (fst (st_NearestRBFInterpolant_call C hn selfn xn diff chunk_size)) \<and>
    (\<forall>a<length hn. fst (st_NearestRBFInterpolant_call C hn selfn xn diff chunk_size) ! a = hn ! a) \<and>
    (holds_nearest hn selfn n \<and> load_reals hn xn = Inr xnv \<longrightarrow>
       holds_nearest (fst (st_NearestRBFInterpolant_call C hn selfn xn diff chunk_size)) selfn n \<and>
       agrees (st_NearestRBFInterpolant_call C hn selfn xn diff chunk_size)
              (outcome (NearestRBFInterpolant_call C n xnv diff chunk_size))))"
proof -
  note fg = frame_st_RBFInterpolant_call [of h C self x diff chunk_size]
  note fn = frame_st_NearestRBFInterpolant_call [of hn C selfn xn diff chunk_size]
  have g1: "length h \<le> length (fst (st_RBFInterpolant_call C h self x diff chunk_size))"
    and g2: "\<forall>a<length h. fst (st_RBFInterpolant_call C h self x diff chunk_size) ! a = h ! a"
    using fg unfolding frame_def by blast+
  have n1: "length hn \<le> length (fst (st_NearestRBFInterpolant_call C hn selfn xn diff chunk_size))"
    and n2: "\<forall>a<length hn. fst (st_NearestRBFInterpolant_call C hn selfn xn diff chunk_size) ! a = hn ! a"
    using fn unfolding frame_def by blast+
  have g3: "holds_global (fst (st_RBFInterpolant_call C h self x diff chunk_size)) self g \<and>
       agrees (st_RBFInterpolant_call C h self x diff chunk_size)
              (outcome (RBFInterpolant_call C g xv diff chunk_size))"
    if "holds_global h self g \<and> load_reals h x = Inr xv"
    using that holds_global_frame [OF fg] st_RBFInterpolant_call_agrees by blast
  have n3: "holds_nearest (fst (st_NearestRBFInterpolant_call C hn selfn xn diff chunk_size)) selfn n \<and>
       agrees (st_NearestRBFInterpolant_call C hn selfn xn diff chunk_size)
              (outcome (NearestRBFInterpolant_call C n xnv diff chunk_size))"
    if "holds_nearest hn selfn n \<and> load_reals hn xn = Inr xnv"
    using that holds_nearest_frame [OF fn] st_NearestRBFInterpolant_call_agrees by blast
  from g1 g2 g3 n1 n2 n3 show ?thesis by (intro conjI impI) blast+
qed

text \<open>
  The sample stores, three targets in chunks of two: the interpolants and the arrays
  at the addresses 0 to 5 are as before, and the outputs are those of the evaluation on
  values.
\<close>

theorem evaluation_frame_witness:
  "holds_global sample_global_store 4 sample_global \<and>
   load_reals sample_global_store (whole 5) = Inr sample_x \<and>
   holds_global (fst (st_RBFInterpolant_call sample_collab sample_global_store 4 (whole 5) None
                        (Some 2))) 4 sample_global \<and>
   fst (st_RBFInterpolant_call sample_collab sample_global_store 4 (whole 5) None (Some 2)) ! 0
     = sample_global_store ! 0 \<and>
   fst (st_RBFInterpolant_call sample_collab sample_global_store 4 (whole 5) None (Some 2)) ! 4
     = sample_global_store ! 4 \<and>
   agrees (st_RBFInterpolant_call sample_collab sample_global_store 4 (whole 5) None (Some 2))
          (Inr [NaN, NaN, Val 4]) \<and>
   holds_nearest sample_nearest_store 4 sample_nearest \<and>
   load_reals sample_nearest_store (whole 5) = Inr sample_x \<and>
   holds_nearest (fst (st_NearestRBFInterpolant_call sample_collab sample_nearest_store 4 (whole 5)
                         None (Some 2))) 4 sample_nearest \<and>
   fst (st_NearestRBFInterpolant_call sample_collab sample_nearest_store 4 (whole 5) None (Some 2)) ! 0
     = sample_nearest_store ! 0 \<and>
   fst (st_NearestRBFInterpolant_call sample_collab sample_nearest_store 4 (whole 5) None (Some 2)) ! 4
     = sample_nearest_store ! 4 \<and>
   agrees (st_NearestRBFInterpolant_call sample_collab sample_nearest_store 4 (whole 5) None (Some 2))
          (Inr [Val 25, Val 75, Val 0])"
proof -
  have hg: "holds_global sample_global_store 4 sample_global"
    by (simp add: holds_global_def load_global_def load_reals_def load_floats_def
          load_exponents_def load_def whole_def sample_global_store_def sample_global_def)
  have xg: "load_reals sample_global_store (whole 5) = Inr sample_x"
    by (simp add: load_reals_def load_def whole_def sample_global_store_def)
  have hn: "holds_nearest sample_nearest_store 4 sample_nearest"
    by (simp add: holds_nearest_def load_nearest_def load_reals_def load_reals1_def
          load_tree_def load_def whole_def sample_nearest_store_def sample_nearest_def
          sample_d_def)
  have xn: "load_reals sample_nearest_store (whole 5) = Inr sample_x"
    by (simp add: load_reals_def load_def whole_def sample_nearest_store_def)
  have lg: "length sample_global_store = 6" and ln: "length sample_nearest_store = 6"
    by (simp_all add: sample_global_store_def sample_nearest_store_def)
  have og: "outcome (RBFInterpolant_call sample_collab sample_global sample_x None (Some 2))
              = Inr [NaN, NaN, Val 4]"
    by code_simp
  have on: "outcome (NearestRBFInterpolant_call sample_collab sample_nearest sample_x None (Some 2))
              = Inr [Val 25, Val 75, Val 0]"
    by code_simp
  note t = evaluation_frame [where C = sample_collab and h = sample_global_store and self = 4
      and x = "whole 5" and diff = None and chunk_size = "Some 2" and g = sample_global
      and xv = sample_x and hn = sample_nearest_store and selfn = 4 and xn = "whole 5"
      and n = sample_nearest and xnv = sample_x, unfolded og on lg ln]
  have i: "(0::nat) < 6" "(4::nat) < 6" by simp_all
  from t hg xg hn xn i show ?thesis by blast
qed

end
